theory Spec2Isabelle
  imports
    Main
    "HOL-Library.Char_ord"
    "HOL-Library.List_Lexorder"
    "HOL-Library.Product_Lexorder"
    "HOL-Library.Log_Nat"
    "HOL-Library.Multiset"
begin

section \<open>Host functions\<close>

text \<open>
  The three route handlers (\<^verbatim>\<open>url\<close>, \<^verbatim>\<open>repay\<close>, \<^verbatim>\<open>webhook\<close>) call functions of the
  JavaScript host that are not code of the repository:
  \<^item> \<^verbatim>\<open>String.prototype.localeCompare\<close>, the comparator handed to \<^verbatim>\<open>Array.prototype.sort\<close>
    in \<^verbatim>\<open>getVerifyParams\<close>; its result depends on the collation of the host's locale;
  \<^item> \<^verbatim>\<open>crypto.createHash("md5").update(s).digest("hex")\<close>;
  \<^item> the getters and setters of \<^verbatim>\<open>Date\<close> that work on local time (\<^verbatim>\<open>getFullYear\<close>,
    \<^verbatim>\<open>getMonth\<close>, \<^verbatim>\<open>getDate\<close>, \<^verbatim>\<open>getHours\<close>, \<^verbatim>\<open>getMinutes\<close>, \<^verbatim>\<open>getSeconds\<close>, \<^verbatim>\<open>setMonth\<close>,
    \<^verbatim>\<open>setFullYear\<close>); their results depend on the time zone of the host.
  They are parameters of the model. Strings are \<^typ>\<open>string\<close>; a character outside ASCII
  is the sequence of its UTF-8 bytes.

  A \<^verbatim>\<open>Date\<close> is an instant. It is modelled by the fields of its ISO string
  (\<^verbatim>\<open>toISOString\<close>), which are those of UTC: full year, month (\<open>0\<close> to \<open>11\<close>), day of the
  month and the milliseconds elapsed within the day. Instants are ordered as these
  fields are, lexicographically; this is the order of \<^typ>\<open>int \<times> nat \<times> nat \<times> nat\<close>. The same
  fields stand for the \<^verbatim>\<open>TIMESTAMPTZ\<close> columns and for the ISO strings exchanged with the
  store.
\<close>

type_synonym date = "int \<times> nat \<times> nat \<times> nat"

text \<open>
  The time zone enters through the two conversions of ECMA-262: \<open>LocalTime\<close> takes an
  instant to the year, month, day and time of day that the host's zone shows at that
  instant, and \<open>UTC\<close> takes such fields of local time back to an instant. Where daylight
  saving time skips or repeats a local time, the host chooses the instant; on a host
  whose zone is UTC both conversions are the identity.
\<close>

record host =
  localeCompare :: "string \<Rightarrow> string \<Rightarrow> int"
  md5_hex :: "string \<Rightarrow> string"
  LocalTime :: "date \<Rightarrow> int \<times> nat \<times> nat \<times> nat"
  UTC :: "int \<times> nat \<times> nat \<times> nat \<Rightarrow> date"

section \<open>The signing string: \<^verbatim>\<open>getVerifyParams\<close>\<close>

text \<open>
  A \<^verbatim>\<open>Record<string, string>\<close> is the list of its own enumerable properties in the order
  in which \<^verbatim>\<open>for (const key in params)\<close> visits them; the property names of one object
  are pairwise distinct.
\<close>

type_synonym params = "(string \<times> string) list"

text \<open>
  \<^verbatim>\<open>Array.prototype.sort\<close> is stable: entries that the comparator reports as equal
  (result \<open>0\<close>) keep their relative order. The model is the stable insertion sort.
\<close>

fun insort_cmp :: "('a \<Rightarrow> 'a \<Rightarrow> int) \<Rightarrow> 'a \<Rightarrow> 'a list \<Rightarrow> 'a list" where
  "insort_cmp c x [] = [x]"
| "insort_cmp c x (y # ys) = (if c x y \<le> 0 then x # y # ys else y # insort_cmp c x ys)"

definition array_sort :: "('a \<Rightarrow> 'a \<Rightarrow> int) \<Rightarrow> 'a list \<Rightarrow> 'a list" where
  "array_sort c xs = foldr (insort_cmp c) xs []"

fun join :: "string \<Rightarrow> string list \<Rightarrow> string" where
  "join sep [] = []"
| "join sep [x] = x"
| "join sep (x # y # ys) = x @ sep @ join sep (y # ys)"

text \<open>The loop of \<^verbatim>\<open>getVerifyParams\<close> skips a property when \<^verbatim>\<open>!params[key]\<close> (the empty
  string is the only falsy string) or when the key is \<^verbatim>\<open>sign\<close> or \<^verbatim>\<open>sign_type\<close>.\<close>

definition skipped :: "string \<times> string \<Rightarrow> bool" where
  "skipped e = (snd e = [] \<or> fst e = ''sign'' \<or> fst e = ''sign_type'')"

definition sPara :: "params \<Rightarrow> params" where
  "sPara ps = filter (\<lambda>e. \<not> skipped e) ps"

definition key_value :: "string \<times> string \<Rightarrow> string" where
  "key_value e = fst e @ ''='' @ snd e"

definition getVerifyParams :: "(string \<Rightarrow> string \<Rightarrow> int) \<Rightarrow> params \<Rightarrow> string" where
  "getVerifyParams lc ps =
     join ''&'' (map key_value (array_sort (\<lambda>a b. lc (fst a) (fst b)) (sPara ps)))"

text \<open>\<^verbatim>\<open>crypto.createHash("md5").update(str + key).digest("hex")\<close>, as all three handlers
  compute it from \<^verbatim>\<open>str = getVerifyParams(params)\<close>.\<close>

definition sign_of :: "host \<Rightarrow> params \<Rightarrow> string \<Rightarrow> string" where
  "sign_of h ps key = md5_hex h (getVerifyParams (localeCompare h) ps @ key)"

subsection \<open>The recipe in the words of the specification\<close>

text \<open>
  Drop reserved and empty entries, sort by key in byte-wise ascending order, join
  \<open>key=value\<close> with \<open>&\<close>. The order on \<^typ>\<open>string\<close> is the lexicographic order of the
  character codes.
\<close>

definition canonical_bytewise :: "params \<Rightarrow> string" where
  "canonical_bytewise ps =
     join ''&'' (map key_value (sort_key fst
       (filter (\<lambda>e. fst e \<noteq> ''sign'' \<and> fst e \<noteq> ''sign_type'' \<and> snd e \<noteq> []) ps)))"

text \<open>The comparison by code units, which is what the comment above \<^verbatim>\<open>getVerifyParams\<close>
  documents ("ASCII order of the keys").\<close>

definition byte_compare :: "string \<Rightarrow> string \<Rightarrow> int" where
  "byte_compare a b = (if a < b then - 1 else if b < a then 1 else 0)"

text \<open>
  A collation of the kind ECMA-402 hosts implement, cut down to its first two decisions:
  strings are compared with letter case ignored, and only if that does not decide, a
  lower-case letter precedes its upper-case form. Under it \<open>a\<close> precedes \<open>B\<close>, as under
  every locale's collation of Latin letters.
\<close>

definition lower_char :: "char \<Rightarrow> char" where
  "lower_char c =
     (case map_of (zip ''ABCDEFGHIJKLMNOPQRSTUVWXYZ'' ''abcdefghijklmnopqrstuvwxyz'') c of
        None \<Rightarrow> c
      | Some l \<Rightarrow> l)"

definition caseless_compare :: "string \<Rightarrow> string \<Rightarrow> int" where
  "caseless_compare a b =
     (let a' = map lower_char a; b' = map lower_char b
      in if a' < b' then - 1 else if b' < a' then 1 else byte_compare b a)"

section \<open>Numbers\<close>

text \<open>
  A JavaScript number is an IEEE 754 double. \<open>Fin x\<close> is the finite double whose value is
  the rational \<open>x\<close>; the two zeros are one value (no operation of the handlers
  distinguishes them). \<open>Infinity neg\<close> is \<open>-Infinity\<close> when \<open>neg\<close> holds.
\<close>

datatype number = NaN | Infinity bool | Fin rat

definition pow2 :: "int \<Rightarrow> rat" where
  "pow2 k = (if 0 \<le> k then 2 ^ nat k else 1 / 2 ^ nat (- k))"

text \<open>
  \<open>ilog2 x\<close> is \<open>\<lfloor>log\<^sub>2 x\<rfloor>\<close> for a positive rational, the exponent of the binade of \<open>x\<close>:
  from \<open>1\<close> on it is that of the integer part of \<open>x\<close>, and below \<open>1\<close> the least \<open>k\<close> with
  \<open>1 / x \<le> 2\<^sup>k\<close>, negated. \<open>bitlen n\<close> is the number of binary digits of \<open>n\<close>.
\<close>

definition ilog2 :: "rat \<Rightarrow> int" where
  "ilog2 x = (if 1 \<le> x then bitlen \<lfloor>x\<rfloor> - 1 else - bitlen (\<lceil>1 / x\<rceil> - 1))"

definition round_half_even :: "rat \<Rightarrow> int" where
  "round_half_even x =
     (let f = \<lfloor>x\<rfloor>; r = x - of_int f
      in if r < 1 / 2 then f else if 1 / 2 < r then f + 1 else if even f then f else f + 1)"

text \<open>
  Rounding to the nearest double, ties to even: 53 significant bits, the spacing never
  below \<open>2\<^sup>-\<^sup>1\<^sup>0\<^sup>7\<^sup>4\<close> (subnormals), overflow to infinity when the rounded value
  reaches \<open>2\<^sup>1\<^sup>0\<^sup>2\<^sup>4\<close>, that is, when its exponent is \<open>1024\<close>.
\<close>

definition to_double :: "rat \<Rightarrow> number" where
  "to_double x =
     (if x = 0 then Fin 0
      else let a = \<bar>x\<bar>;
               q = max (ilog2 a - 52) (- 1074);
               y = of_int (round_half_even (a / pow2 q)) * pow2 q
           in if 1024 \<le> ilog2 y then Infinity (x < 0) else Fin (if x < 0 then - y else y))"

definition isNaN :: "number \<Rightarrow> bool" where
  "isNaN n = (n = NaN)"

fun num_sub :: "number \<Rightarrow> number \<Rightarrow> number" where
  "num_sub NaN _ = NaN"
| "num_sub _ NaN = NaN"
| "num_sub (Infinity a) (Infinity b) = (if a = b then NaN else Infinity a)"
| "num_sub (Infinity a) (Fin _) = Infinity a"
| "num_sub (Fin _) (Infinity b) = Infinity (\<not> b)"
| "num_sub (Fin x) (Fin y) = to_double (x - y)"

fun Math_abs :: "number \<Rightarrow> number" where
  "Math_abs NaN = NaN"
| "Math_abs (Infinity _) = Infinity False"
| "Math_abs (Fin x) = Fin \<bar>x\<bar>"

text \<open>The relational operator \<^verbatim>\<open>>\<close>: false whenever an operand is \<^verbatim>\<open>NaN\<close>.\<close>

fun num_gt :: "number \<Rightarrow> number \<Rightarrow> bool" where
  "num_gt NaN _ = False"
| "num_gt _ NaN = False"
| "num_gt (Infinity a) (Infinity b) = (\<not> a \<and> b)"
| "num_gt (Infinity a) (Fin _) = (\<not> a)"
| "num_gt (Fin _) (Infinity b) = b"
| "num_gt (Fin x) (Fin y) = (y < x)"

subsection \<open>\<^verbatim>\<open>parseFloat\<close>\<close>

text \<open>
  \<^verbatim>\<open>parseFloat\<close> skips leading white space, then reads the longest prefix that is a
  \<^verbatim>\<open>StrDecimalLiteral\<close> (sign, then \<^verbatim>\<open>Infinity\<close> or digits with an optional fraction and
  an optional exponent) and ignores whatever follows; with no such prefix the result is
  \<^verbatim>\<open>NaN\<close>. The value read is rounded to the nearest double.
\<close>

definition white_space :: "string list" where
  "white_space =
     [[CHR 0x09], [CHR 0x0A], [CHR 0x0B], [CHR 0x0C], [CHR 0x0D], [CHR 0x20],
      [CHR 0xC2, CHR 0xA0], [CHR 0xE1, CHR 0x9A, CHR 0x80],
      [CHR 0xE2, CHR 0x80, CHR 0x80], [CHR 0xE2, CHR 0x80, CHR 0x81],
      [CHR 0xE2, CHR 0x80, CHR 0x82], [CHR 0xE2, CHR 0x80, CHR 0x83],
      [CHR 0xE2, CHR 0x80, CHR 0x84], [CHR 0xE2, CHR 0x80, CHR 0x85],
      [CHR 0xE2, CHR 0x80, CHR 0x86], [CHR 0xE2, CHR 0x80, CHR 0x87],
      [CHR 0xE2, CHR 0x80, CHR 0x88], [CHR 0xE2, CHR 0x80, CHR 0x89],
      [CHR 0xE2, CHR 0x80, CHR 0x8A], [CHR 0xE2, CHR 0x80, CHR 0xA8],
      [CHR 0xE2, CHR 0x80, CHR 0xA9], [CHR 0xE2, CHR 0x80, CHR 0xAF],
      [CHR 0xE2, CHR 0x81, CHR 0x9F], [CHR 0xE3, CHR 0x80, CHR 0x80],
      [CHR 0xEF, CHR 0xBB, CHR 0xBF]]"

fun strip_prefix :: "string \<Rightarrow> string \<Rightarrow> string option" where
  "strip_prefix [] s = Some s"
| "strip_prefix (p # ps) [] = None"
| "strip_prefix (p # ps) (c # cs) = (if p = c then strip_prefix ps cs else None)"

text \<open>The first white-space sequence that starts the string, removed.\<close>

fun strip_one :: "string list \<Rightarrow> string \<Rightarrow> string option" where
  "strip_one [] s = None"
| "strip_one (w # ws) s =
     (case strip_prefix w s of Some r \<Rightarrow> Some r | None \<Rightarrow> strip_one ws s)"

fun trim_start_fuel :: "nat \<Rightarrow> string \<Rightarrow> string" where
  "trim_start_fuel 0 s = s"
| "trim_start_fuel (Suc n) s =
     (case strip_one white_space s of None \<Rightarrow> s | Some r \<Rightarrow> trim_start_fuel n r)"

text \<open>Every step removes at least one character, so \<open>length s\<close> steps reach the end of
  the leading white space.\<close>

definition trim_start :: "string \<Rightarrow> string" where
  "trim_start s = trim_start_fuel (length s) s"

definition is_digit :: "char \<Rightarrow> bool" where
  "is_digit c = (CHR ''0'' \<le> c \<and> c \<le> CHR ''9'')"

definition digit_val :: "char \<Rightarrow> nat" where
  "digit_val c = of_char c - 48"

definition digits_val :: "string \<Rightarrow> nat" where
  "digits_val ds = foldl (\<lambda>n c. 10 * n + digit_val c) 0 ds"

text \<open>\<^verbatim>\<open>ExponentPart\<close>: \<open>e\<close> or \<open>E\<close>, an optional sign, at least one digit; otherwise the
  literal ends before it and the exponent is \<open>0\<close>.\<close>

definition exponent_part :: "string \<Rightarrow> int" where
  "exponent_part s =
     (case s of
        [] \<Rightarrow> 0
      | e # t \<Rightarrow>
          if e = CHR ''e'' \<or> e = CHR ''E'' then
            (case t of
               [] \<Rightarrow> 0
             | c # u \<Rightarrow>
                 if c = CHR ''-'' then
                   (if takeWhile is_digit u = [] then 0
                    else - int (digits_val (takeWhile is_digit u)))
                 else if c = CHR ''+'' then int (digits_val (takeWhile is_digit u))
                 else int (digits_val (takeWhile is_digit t)))
          else 0)"

definition pow10 :: "int \<Rightarrow> rat" where
  "pow10 k = (if 0 \<le> k then 10 ^ nat k else 1 / 10 ^ nat (- k))"

text \<open>The mathematical value of the longest unsigned decimal literal that starts \<open>s\<close>.\<close>

definition decimal_prefix :: "string \<Rightarrow> rat option" where
  "decimal_prefix s =
     (let ip = takeWhile is_digit s;
          r1 = dropWhile is_digit s;
          fp = (case r1 of [] \<Rightarrow> [] | c # t \<Rightarrow> if c = CHR ''.'' then takeWhile is_digit t else []);
          r2 = (case r1 of [] \<Rightarrow> [] | c # t \<Rightarrow> if c = CHR ''.'' then dropWhile is_digit t else r1)
      in if ip = [] \<and> fp = [] then None
         else Some (of_nat (digits_val (ip @ fp)) / 10 ^ length fp * pow10 (exponent_part r2)))"

definition unsigned_literal :: "bool \<Rightarrow> string \<Rightarrow> number" where
  "unsigned_literal neg s =
     (case strip_prefix ''Infinity'' s of
        Some _ \<Rightarrow> Infinity neg
      | None \<Rightarrow>
          (case decimal_prefix s of
             None \<Rightarrow> NaN
           | Some v \<Rightarrow> to_double (if neg then - v else v)))"

definition parseFloat :: "string \<Rightarrow> number" where
  "parseFloat s =
     (case trim_start s of
        [] \<Rightarrow> NaN
      | c # t \<Rightarrow>
          if c = CHR ''-'' then unsigned_literal True t
          else if c = CHR ''+'' then unsigned_literal False t
          else unsigned_literal False (c # t))"

section \<open>Dates\<close>

text \<open>The calendar: months count from \<open>0\<close>, days of the month from \<open>1\<close>.\<close>

definition leap_year :: "int \<Rightarrow> bool" where
  "leap_year y = (y mod 4 = 0 \<and> (y mod 100 \<noteq> 0 \<or> y mod 400 = 0))"

definition DaysInMonth :: "int \<Rightarrow> nat \<Rightarrow> nat" where
  "DaysInMonth y m =
     (if m = 1 then (if leap_year y then 29 else 28)
      else if m = 3 \<or> m = 5 \<or> m = 8 \<or> m = 10 then 30 else 31)"

text \<open>The fields that \<open>LocalTime\<close> and the ISO string can show: a day of the calendar and a
  time within the day.\<close>

definition valid_date :: "int \<times> nat \<times> nat \<times> nat \<Rightarrow> bool" where
  "valid_date dt =
     (case dt of (y, m, d, t) \<Rightarrow> m < 12 \<and> 1 \<le> d \<and> d \<le> DaysInMonth y m \<and> t < 86400000)"

text \<open>
  \<^verbatim>\<open>MakeDay(year, month, date)\<close> counts \<open>date - 1\<close> days on from the first of the month: a
  day of the month beyond the month's length runs over into the following months.
\<close>

function roll_days :: "int \<Rightarrow> nat \<Rightarrow> nat \<Rightarrow> int \<times> nat \<times> nat" where
  "roll_days y m d =
     (if DaysInMonth y m < d
      then (if m = 11 then roll_days (y + 1) 0 (d - DaysInMonth y m)
            else roll_days y (m + 1) (d - DaysInMonth y m))
      else (y, m, d))"
  by pat_completeness auto
termination
  by (relation "measure (\<lambda>(y, m, d). d)") (auto simp: DaysInMonth_def)

declare roll_days.simps [simp del]

definition MakeDay :: "int \<Rightarrow> nat \<Rightarrow> nat \<Rightarrow> int \<times> nat \<times> nat" where
  "MakeDay y m d = roll_days (y + int (m div 12)) (m mod 12) d"

text \<open>
  \<^verbatim>\<open>endDate.setMonth(endDate.getMonth() + 1)\<close>. \<^verbatim>\<open>getMonth\<close> is the month of the local time
  of the instant; \<^verbatim>\<open>setMonth\<close> takes the local time \<open>t = LocalTime(tv)\<close> of the instant,
  keeps its year, day of the month and time within the day, and sets the instant to
  \<open>UTC(MakeDate(MakeDay(YearFromTime(t), month, DateFromTime(t)), TimeWithinDay(t)))\<close>.
\<close>

definition setMonth_next :: "host \<Rightarrow> date \<Rightarrow> date" where
  "setMonth_next h dt =
     (case LocalTime h dt of (y, m, d, t) \<Rightarrow>
        (case MakeDay y (m + 1) d of (y', m', d') \<Rightarrow> UTC h (y', m', d', t)))"

text \<open>\<^verbatim>\<open>endDate.setFullYear(endDate.getFullYear() + 1)\<close>, in the same way with the month and
  the day of the local time.\<close>

definition setFullYear_next :: "host \<Rightarrow> date \<Rightarrow> date" where
  "setFullYear_next h dt =
     (case LocalTime h dt of (y, m, d, t) \<Rightarrow>
        (case MakeDay (y + 1) m d of (y', m', d') \<Rightarrow> UTC h (y', m', d', t)))"

section \<open>The order ledger: table \<^verbatim>\<open>zpay_transactions\<close>\<close>

text \<open>
  One record per row, with the columns of the table definition; the generated \<^verbatim>\<open>id\<close> is
  read by none of the handlers and is left out, and column \<^verbatim>\<open>type\<close> is field \<open>pay_type\<close>.
  \<open>money\<close> is the \<^verbatim>\<open>DECIMAL(10, 2)\<close> amount in hundredths. The table is the list of its
  rows; a row keeps its position for as long as it exists.
\<close>

record transaction =
  user_id :: string
  product_id :: string
  name :: string
  out_trade_no :: string
  trade_no :: "string option"
  money :: int
  pay_type :: string
  status :: string
  is_subscription :: bool
  subscription_period :: "string option"
  subscription_start_date :: "date option"
  subscription_end_date :: "date option"
  created_at :: date
  updated_at :: date

type_synonym ledger = "transaction list"

text \<open>\<^verbatim>\<open>.single()\<close> yields the row when the filter matches exactly one, an error otherwise.\<close>

definition single :: "'a list \<Rightarrow> 'a option" where
  "single rows = (case rows of [r] \<Rightarrow> Some r | _ \<Rightarrow> None)"

text \<open>The object passed to \<^verbatim>\<open>.update(updateData)\<close>: three keys are always present, the two
  subscription dates only when the handler has set them.\<close>

record update_data =
  ud_status :: string
  ud_trade_no :: string
  ud_updated_at :: date
  ud_subscription_start_date :: "date option"
  ud_subscription_end_date :: "date option"

definition apply_update :: "update_data \<Rightarrow> transaction \<Rightarrow> transaction" where
  "apply_update u r =
     r\<lparr>status := ud_status u,
       trade_no := Some (ud_trade_no u),
       updated_at := ud_updated_at u,
       subscription_start_date :=
         (case ud_subscription_start_date u of None \<Rightarrow> subscription_start_date r | Some s \<Rightarrow> Some s),
       subscription_end_date :=
         (case ud_subscription_end_date u of None \<Rightarrow> subscription_end_date r | Some e \<Rightarrow> Some e)\<rparr>"

text \<open>
  \<^verbatim>\<open>.update(updateData).eq("out_trade_no", outTradeNo).eq("status", "pending").select()\<close>:
  one statement of the store, which changes the rows that satisfy both conditions when
  it runs and returns the changed rows.
\<close>

definition still_pending :: "string \<Rightarrow> transaction \<Rightarrow> bool" where
  "still_pending no r = (out_trade_no r = no \<and> status r = ''pending'')"

definition conditional_update :: "ledger \<Rightarrow> string \<Rightarrow> update_data \<Rightarrow> transaction list \<times> ledger" where
  "conditional_update db no u =
     (map (apply_update u) (filter (still_pending no) db),
      map (\<lambda>r. if still_pending no r then apply_update u r else r) db)"

text \<open>\<^verbatim>\<open>.insert(row)\<close>: column \<^verbatim>\<open>out_trade_no\<close> is \<^verbatim>\<open>UNIQUE\<close>; \<open>None\<close> is the error of a
  violation.\<close>

definition insert_row :: "ledger \<Rightarrow> transaction \<Rightarrow> ledger option" where
  "insert_row db r =
     (if \<exists>r' \<in> set db. out_trade_no r' = out_trade_no r then None else Some (db @ [r]))"

section \<open>Configuration and the world outside\<close>

text \<open>The environment variables; \<open>None\<close> is an unset variable.\<close>

record config =
  ZPAY_PID :: "string option"
  ZPAY_KEY :: "string option"
  NEXT_PUBLIC_BASE_URL :: "string option"

text \<open>A variable passes \<^verbatim>\<open>if (!v)\<close> when it is set and not empty.\<close>

definition truthy :: "string option \<Rightarrow> bool" where
  "truthy v = (case v of None \<Rightarrow> False | Some s \<Rightarrow> s \<noteq> [])"

text \<open>
  What one run of the webhook reads from outside: the three readings of the clock
  (\<^verbatim>\<open>new Date()\<close> for \<^verbatim>\<open>updated_at\<close>, for the filter of the subscription query, and for a
  window that starts now, in this order), and whether the store reports an error for
  the order lookup, the subscription query or the update.
\<close>

record world =
  now_updated :: date
  now_query :: date
  now_start :: date
  select_error :: bool
  subs_error :: bool
  update_error :: bool

section \<open>The webhook: \<^verbatim>\<open>GET /api/checkout/providers/zpay/webhook\<close>\<close>

text \<open>
  The request is the list of the query parameters in the order of the URL;
  \<^verbatim>\<open>searchParams.get(k)\<close> is the first value of \<open>k\<close>, and \<^verbatim>\<open>|| ""\<close> makes an absent
  parameter the empty string.
\<close>

type_synonym query = "(string \<times> string) list"

definition field :: "query \<Rightarrow> string \<Rightarrow> string" where
  "field q k = (case map_of q k of None \<Rightarrow> [] | Some v \<Rightarrow> v)"

definition notify_fields :: "string list" where
  "notify_fields =
     [''pid'', ''name'', ''money'', ''out_trade_no'', ''trade_no'', ''param'', ''trade_status'', ''type'']"

definition verifyParams :: "query \<Rightarrow> params" where
  "verifyParams q = filter (\<lambda>e. snd e \<noteq> []) (map (\<lambda>k. (k, field q k)) notify_fields)"

text \<open>The responses of the handler: \<open>Success\<close> is the body \<^verbatim>\<open>success\<close> with status 200, the
  others carry a message and the status given by \<open>status_code\<close>.\<close>

datatype response =
    ConfigError
  | SignatureFailed
  | Success
  | OrderMissing
  | MoneyMismatch
  | UpdateFailed

fun status_code :: "response \<Rightarrow> nat" where
  "status_code ConfigError = 500"
| "status_code SignatureFailed = 400"
| "status_code Success = 200"
| "status_code OrderMissing = 400"
| "status_code MoneyMismatch = 400"
| "status_code UpdateFailed = 500"

text \<open>
  The amount check. \<^verbatim>\<open>transaction.money\<close> arrives as the double nearest to the stored
  decimal, and \<^verbatim>\<open>parseFloat\<close> of a number gives the number back.
\<close>

definition money_mismatch :: "string \<Rightarrow> int \<Rightarrow> bool" where
  "money_mismatch received stored =
     (let receivedMoney = parseFloat received;
          expectedMoney = to_double (of_int stored / 100)
      in isNaN receivedMoney \<or> isNaN expectedMoney \<or>
         num_gt (Math_abs (num_sub receivedMoney expectedMoney)) (to_double (1 / 1000)))"

text \<open>Steps 1 to 4 of the handler, up to the amount check: either the response that ends
  the run, or the order row that was read.\<close>

definition webhook_checks :: "host \<Rightarrow> config \<Rightarrow> world \<Rightarrow> ledger \<Rightarrow> query \<Rightarrow> response + transaction" where
  "webhook_checks h cfg w db q =
     (case ZPAY_KEY cfg of
        None \<Rightarrow> Inl ConfigError
      | Some key \<Rightarrow>
          if key = [] then Inl ConfigError
          else if field q ''sign'' \<noteq> sign_of h (verifyParams q) key then Inl SignatureFailed
          else if field q ''trade_status'' \<noteq> ''TRADE_SUCCESS'' then Inl Success
          else if select_error w then Inl OrderMissing
          else
            (case single (filter (\<lambda>r. out_trade_no r = field q ''out_trade_no'') db) of
               None \<Rightarrow> Inl OrderMissing
             | Some t \<Rightarrow>
                 if status t = ''paid'' then Inl Success
                 else if money_mismatch (field q ''money'') (money t) then Inl MoneyMismatch
                 else Inr t))"

text \<open>
  The subscription query: end dates of the user's paid subscription rows that lie after
  the clock reading, latest first, at most one. A failed query leaves \<^verbatim>\<open>data\<close> null,
  which the handler treats like an empty result.
\<close>

definition active_end_dates :: "world \<Rightarrow> ledger \<Rightarrow> string \<Rightarrow> date list" where
  "active_end_dates w db uid =
     concat (map (\<lambda>r. case subscription_end_date r of
                        None \<Rightarrow> []
                      | Some e \<Rightarrow>
                          if user_id r = uid \<and> is_subscription r \<and> status r = ''paid'' \<and> now_query w < e
                          then [e] else []) db)"

definition existingSubscriptions :: "world \<Rightarrow> ledger \<Rightarrow> string \<Rightarrow> date list" where
  "existingSubscriptions w db uid =
     (if subs_error w then [] else take 1 (rev (sort (active_end_dates w db uid))))"

definition startDate :: "world \<Rightarrow> ledger \<Rightarrow> string \<Rightarrow> date" where
  "startDate w db uid =
     (case existingSubscriptions w db uid of [] \<Rightarrow> now_start w | e # _ \<Rightarrow> e)"

definition endDate :: "host \<Rightarrow> string \<Rightarrow> date \<Rightarrow> date" where
  "endDate h period start =
     (if period = ''monthly'' then setMonth_next h start
      else if period = ''yearly'' then setFullYear_next h start
      else start)"

text \<open>Steps 5 and 6: \<^verbatim>\<open>updateData\<close>, with the subscription dates when the row is a
  subscription with a non-empty period.\<close>

definition updateData :: "host \<Rightarrow> world \<Rightarrow> ledger \<Rightarrow> transaction \<Rightarrow> query \<Rightarrow> update_data" where
  "updateData h w db t q =
     (let base = \<lparr>ud_status = ''paid'', ud_trade_no = field q ''trade_no'',
                  ud_updated_at = now_updated w,
                  ud_subscription_start_date = None, ud_subscription_end_date = None\<rparr>
      in case subscription_period t of
           None \<Rightarrow> base
         | Some period \<Rightarrow>
             if is_subscription t \<and> period \<noteq> []
             then (let s = startDate w db (user_id t)
                   in base\<lparr>ud_subscription_start_date := Some s,
                           ud_subscription_end_date := Some (endDate h period s)\<rparr>)
             else base)"

text \<open>Step 7: the conditional update and the response that follows it. An update that
  the store reports as failed changes nothing.\<close>

definition webhook_write :: "world \<Rightarrow> ledger \<Rightarrow> query \<Rightarrow> update_data \<Rightarrow> response \<times> ledger" where
  "webhook_write w db q u =
     (if update_error w then (UpdateFailed, db)
      else (case conditional_update db (field q ''out_trade_no'') u of
              (updatedRows, db') \<Rightarrow> (Success, db')))"

text \<open>
  The handler awaits the store three times, and other requests may run in between:
  \<open>GET_at\<close> takes the table as it is at the order lookup (\<open>dbr\<close>), at the subscription query
  (\<open>dbs\<close>) and at
  the update. \<open>GET\<close> is a run that no other request interleaves.
\<close>

definition GET_at :: "host \<Rightarrow> config \<Rightarrow> world \<Rightarrow> ledger \<Rightarrow> ledger \<Rightarrow> ledger \<Rightarrow> query \<Rightarrow> response \<times> ledger" where
  "GET_at h cfg w dbr dbs dbw q =
     (case webhook_checks h cfg w dbr q of
        Inl r \<Rightarrow> (r, dbw)
      | Inr t \<Rightarrow> webhook_write w dbw q (updateData h w dbs t q))"

definition GET :: "host \<Rightarrow> config \<Rightarrow> world \<Rightarrow> ledger \<Rightarrow> query \<Rightarrow> response \<times> ledger" where
  "GET h cfg w db q = GET_at h cfg w db db db q"

section \<open>Issuing an order: \<^verbatim>\<open>POST /api/checkout/providers/zpay/url\<close>\<close>

text \<open>Decimal digits of a natural number, as the template literal and \<^verbatim>\<open>toString()\<close>
  print it.\<close>

fun digits :: "nat \<Rightarrow> string" where
  "digits n =
     (if n < 10 then [''0123456789'' ! n]
      else digits (n div 10) @ [''0123456789'' ! (n mod 10)])"

declare digits.simps [simp del]

definition String_int :: "int \<Rightarrow> string" where
  "String_int i = (if i < 0 then ''-'' @ digits (nat (- i)) else digits (nat i))"

definition padStart :: "nat \<Rightarrow> char \<Rightarrow> string \<Rightarrow> string" where
  "padStart n c s = replicate (n - length s) c @ s"

text \<open>
  \<^verbatim>\<open>generateOrderNo\<close> reads the clock and \<^verbatim>\<open>Math.random()\<close>, and prints the fields of
  the local time; \<open>random\<close> is the value of \<^verbatim>\<open>Math.floor(Math.random() * 1000)\<close>, a number
  from \<open>0\<close> to \<open>999\<close>.
\<close>

definition generateOrderNo :: "host \<Rightarrow> date \<Rightarrow> nat \<Rightarrow> string" where
  "generateOrderNo h now random =
     (case LocalTime h now of (y, m, d, t) \<Rightarrow>
        String_int y
        @ padStart 2 CHR ''0'' (digits (m + 1))
        @ padStart 2 CHR ''0'' (digits d)
        @ padStart 2 CHR ''0'' (digits (t div 3600000))
        @ padStart 2 CHR ''0'' (digits (t div 60000 mod 60))
        @ padStart 2 CHR ''0'' (digits (t div 1000 mod 60))
        @ padStart 3 CHR ''0'' (digits random))"

text \<open>
  The catalogue \<^verbatim>\<open>products\<close> of \<^verbatim>\<open>@/lib/products\<close> is not among the sources; it is a
  parameter, a map from product identifiers to the fields the handler reads.
\<close>

record product =
  prod_name :: string
  price :: string
  isSubscription :: bool
  subscriptionPeriod :: "string option"

type_synonym catalogue = "string \<rightharpoonup> product"

text \<open>The JSON body of the request; \<open>payType = None\<close> is a body without that key, for which
  the destructuring default \<^verbatim>\<open>"alipay"\<close> applies.\<close>

record url_body =
  productId :: string
  payType :: "string option"

text \<open>
  What one run of the issuer reads from outside: the authenticated user (\<open>None\<close> when
  \<^verbatim>\<open>getUser\<close> fails or returns no user), the clock and the random number of
  \<^verbatim>\<open>generateOrderNo\<close>, and the store's clock for the column defaults.
\<close>

record issue_world =
  auth_user :: "string option"
  issue_now :: date
  issue_random :: nat
  store_now :: date

text \<open>The responses of the two \<^verbatim>\<open>POST\<close> handlers. \<open>PayUrl es\<close> is
  \<^verbatim>\<open>{ url: "https://zpayz.cn/submit.php?" + urlParams.toString() }\<close>, where \<open>es\<close> are the
  entries of \<^verbatim>\<open>urlParams\<close> in their order.\<close>

datatype api_response =
    LoginRequired
  | UnsupportedPayType
  | ProductMissing
  | PayConfigError
  | CreateOrderFailed
  | OrderNoMissing
  | OrderNotFoundOrPaid
  | PayUrl params

fun api_status :: "api_response \<Rightarrow> nat" where
  "api_status LoginRequired = 401"
| "api_status UnsupportedPayType = 400"
| "api_status ProductMissing = 400"
| "api_status PayConfigError = 500"
| "api_status CreateOrderFailed = 500"
| "api_status OrderNoMissing = 400"
| "api_status OrderNotFoundOrPaid = 404"
| "api_status (PayUrl es) = 200"

text \<open>
  The value the store keeps for a \<^verbatim>\<open>money\<close> that the client sends as a JSON number:
  \<^verbatim>\<open>NaN\<close> and the infinities are sent as \<^verbatim>\<open>null\<close>, which the \<^verbatim>\<open>NOT NULL\<close> column refuses;
  a finite number is rounded to two decimals (half away from zero) and must fit ten
  digits.
\<close>

definition numeric_10_2 :: "number \<Rightarrow> int option" where
  "numeric_10_2 n =
     (case n of
        Fin x \<Rightarrow>
          (let c = (if 0 \<le> x then \<lfloor>x * 100 + 1 / 2\<rfloor> else - \<lfloor>- x * 100 + 1 / 2\<rfloor>)
           in if \<bar>c\<bar> < 10 ^ 10 then Some c else None)
      | _ \<Rightarrow> None)"

definition notify_url :: "string \<Rightarrow> string" where
  "notify_url baseUrl = baseUrl @ ''/api/checkout/providers/zpay/webhook''"

definition return_url :: "string \<Rightarrow> string" where
  "return_url baseUrl = baseUrl @ ''/payment/success''"

definition pay_params :: "string \<Rightarrow> string \<Rightarrow> string \<Rightarrow> string \<Rightarrow> string \<Rightarrow> string \<Rightarrow> params" where
  "pay_params pid amount pname baseUrl no ptype =
     [(''pid'', pid), (''money'', amount), (''name'', pname),
      (''notify_url'', notify_url baseUrl), (''out_trade_no'', no),
      (''return_url'', return_url baseUrl), (''type'', ptype)]"

definition payment_url :: "host \<Rightarrow> params \<Rightarrow> string \<Rightarrow> api_response" where
  "payment_url h ps key = PayUrl (ps @ [(''sign'', sign_of h ps key), (''sign_type'', ''MD5'')])"

definition pending_row :: "string \<Rightarrow> string \<Rightarrow> product \<Rightarrow> string \<Rightarrow> string \<Rightarrow> int \<Rightarrow> date \<Rightarrow> transaction" where
  "pending_row uid prodId p no ptype amount now =
     \<lparr>user_id = uid, product_id = prodId, name = prod_name p, out_trade_no = no,
      trade_no = None, money = amount, pay_type = ptype, status = ''pending'',
      is_subscription = isSubscription p,
      subscription_period =
        (case subscriptionPeriod p of None \<Rightarrow> None | Some sp \<Rightarrow> if sp = [] then None else Some sp),
      subscription_start_date = None, subscription_end_date = None,
      created_at = now, updated_at = now\<rparr>"

definition POST_url ::
  "host \<Rightarrow> config \<Rightarrow> catalogue \<Rightarrow> issue_world \<Rightarrow> ledger \<Rightarrow> url_body \<Rightarrow> api_response \<times> ledger" where
  "POST_url h cfg products w db body =
     (case auth_user w of
        None \<Rightarrow> (LoginRequired, db)
      | Some uid \<Rightarrow>
          (let ptype = (case payType body of None \<Rightarrow> ''alipay'' | Some pt \<Rightarrow> pt)
           in if ptype \<noteq> ''alipay'' \<and> ptype \<noteq> ''wxpay'' then (UnsupportedPayType, db)
              else
                (case products (productId body) of
                   None \<Rightarrow> (ProductMissing, db)
                 | Some p \<Rightarrow>
                     if \<not> truthy (ZPAY_PID cfg) \<or> \<not> truthy (ZPAY_KEY cfg)
                        \<or> \<not> truthy (NEXT_PUBLIC_BASE_URL cfg)
                     then (PayConfigError, db)
                     else
                       (let outTradeNo = generateOrderNo h (issue_now w) (issue_random w);
                            ps = pay_params (the (ZPAY_PID cfg)) (price p) (prod_name p)
                                   (the (NEXT_PUBLIC_BASE_URL cfg)) outTradeNo ptype
                        in case numeric_10_2 (parseFloat (price p)) of
                             None \<Rightarrow> (CreateOrderFailed, db)
                           | Some amount \<Rightarrow>
                               (case insert_row db
                                       (pending_row uid (productId body) p outTradeNo ptype
                                          amount (store_now w)) of
                                  None \<Rightarrow> (CreateOrderFailed, db)
                                | Some db' \<Rightarrow> (payment_url h ps (the (ZPAY_KEY cfg)), db'))))))"

section \<open>Regenerating the link: \<^verbatim>\<open>POST /api/checkout/providers/zpay/repay\<close>\<close>

text \<open>\<^verbatim>\<open>String(transaction.money)\<close>: the shortest decimal of a number with two decimals.\<close>

definition String_money :: "int \<Rightarrow> string" where
  "String_money c =
     (let a = nat \<bar>c\<bar>; ip = a div 100; fp = a mod 100
      in (if c < 0 then ''-'' else [])
         @ digits ip
         @ (if fp = 0 then []
            else if fp mod 10 = 0 then ''.'' @ digits (fp div 10)
            else ''.'' @ padStart 2 CHR ''0'' (digits fp)))"

text \<open>
  The handler queries with the client of the signed-in user: the row-level policy
  \<^verbatim>\<open>auth.uid() = user_id\<close> shows it the user's own rows only.
\<close>

definition visible_to :: "string \<Rightarrow> ledger \<Rightarrow> ledger" where
  "visible_to uid db = filter (\<lambda>r. user_id r = uid) db"

definition POST_repay ::
  "host \<Rightarrow> config \<Rightarrow> string option \<Rightarrow> ledger \<Rightarrow> string option \<Rightarrow> api_response" where
  "POST_repay h cfg user db outTradeNo =
     (case user of
        None \<Rightarrow> LoginRequired
      | Some uid \<Rightarrow>
          (case outTradeNo of
             None \<Rightarrow> OrderNoMissing
           | Some no \<Rightarrow>
               if no = [] then OrderNoMissing
               else
                 (case single (filter (\<lambda>r. out_trade_no r = no \<and> status r = ''pending'')
                                 (visible_to uid db)) of
                    None \<Rightarrow> OrderNotFoundOrPaid
                  | Some t \<Rightarrow>
                      if \<not> truthy (ZPAY_PID cfg) \<or> \<not> truthy (ZPAY_KEY cfg)
                         \<or> \<not> truthy (NEXT_PUBLIC_BASE_URL cfg)
                      then PayConfigError
                      else payment_url h
                             (pay_params (the (ZPAY_PID cfg)) (String_money (money t)) (name t)
                                (the (NEXT_PUBLIC_BASE_URL cfg)) (out_trade_no t) (pay_type t))
                             (the (ZPAY_KEY cfg)))))"

section \<open>Histories of webhook runs\<close>

text \<open>
  A history is a list of runs against one ledger. A run comes with its world, with the
  tables its two reads saw (they may be stale: other runs may have written since) and
  with its request; its update acts on the ledger as the earlier runs left it.
\<close>

fun webhook_runs :: "host \<Rightarrow> config \<Rightarrow> (world \<times> ledger \<times> ledger \<times> query) list \<Rightarrow> ledger \<Rightarrow> ledger" where
  "webhook_runs h cfg [] db = db"
| "webhook_runs h cfg ((w, dbr, dbs, q) # rs) db =
     webhook_runs h cfg rs (snd (GET_at h cfg w dbr dbs db q))"

section \<open>A worked example\<close>

text \<open>
  User \<open>u1\<close> holds a paid monthly subscription that ends on 15 April 2025 and a pending
  monthly order; the gateway notifies the payment of the pending order on 1 April 2025.
  Months count from \<open>0\<close>. The host of the example compares keys by code units, has the
  identity in place of the digest, and its time zone is UTC.
\<close>

definition sample_host :: host where
  "sample_host =
     \<lparr>localeCompare = byte_compare, md5_hex = (\<lambda>s. s), LocalTime = (\<lambda>t. t), UTC = (\<lambda>t. t)\<rparr>"

definition sample_config :: config where
  "sample_config =
     \<lparr>ZPAY_PID = Some ''1001'', ZPAY_KEY = Some ''k3y'',
      NEXT_PUBLIC_BASE_URL = Some ''https://shop.example''\<rparr>"

definition sample_fields :: query where
  "sample_fields =
     [(''pid'', ''1001''), (''trade_no'', ''T77''), (''out_trade_no'', ''20250401000000123''),
      (''type'', ''alipay''), (''name'', ''pro-monthly''), (''money'', ''9.90''),
      (''trade_status'', ''TRADE_SUCCESS'')]"

definition sample_notify :: query where
  "sample_notify =
     sample_fields
     @ [(''sign'', sign_of sample_host (verifyParams sample_fields) ''k3y''),
        (''sign_type'', ''MD5'')]"

definition sample_world :: world where
  "sample_world =
     \<lparr>now_updated = (2025, 3, 1, 0), now_query = (2025, 3, 1, 0), now_start = (2025, 3, 1, 0),
      select_error = False, subs_error = False, update_error = False\<rparr>"

definition paid_order :: transaction where
  "paid_order =
     \<lparr>user_id = ''u1'', product_id = ''pro-monthly'', name = ''pro-monthly'',
      out_trade_no = ''20250315000000456'', trade_no = Some ''T10'', money = 990,
      pay_type = ''alipay'', status = ''paid'', is_subscription = True,
      subscription_period = Some ''monthly'',
      subscription_start_date = Some (2025, 2, 15, 0),
      subscription_end_date = Some (2025, 3, 15, 0),
      created_at = (2025, 2, 15, 0), updated_at = (2025, 2, 15, 0)\<rparr>"

definition pending_order :: transaction where
  "pending_order =
     \<lparr>user_id = ''u1'', product_id = ''pro-monthly'', name = ''pro-monthly'',
      out_trade_no = ''20250401000000123'', trade_no = None, money = 990,
      pay_type = ''alipay'', status = ''pending'', is_subscription = True,
      subscription_period = Some ''monthly'',
      subscription_start_date = None, subscription_end_date = None,
      created_at = (2025, 3, 1, 0), updated_at = (2025, 3, 1, 0)\<rparr>"

definition sample_ledger :: ledger where
  "sample_ledger = [paid_order, pending_order]"

text \<open>The pending order after the notification has been reconciled.\<close>

definition settled_order :: transaction where
  "settled_order =
     pending_order\<lparr>status := ''paid'', trade_no := Some ''T77'',
       subscription_start_date := Some (2025, 3, 15, 0),
       subscription_end_date := Some (2025, 4, 15, 0)\<rparr>"

text \<open>A run in which no other request interleaves.\<close>

definition sample_run :: "world \<times> ledger \<times> ledger \<times> query" where
  "sample_run = (sample_world, sample_ledger, sample_ledger, sample_notify)"

text \<open>Variants of the notification: a forged signature, a trade that was closed, an amount
  that is not the order's, and additional query parameters around the fields.\<close>

definition forged_notify :: query where
  "forged_notify = sample_fields @ [(''sign'', ''0000''), (''sign_type'', ''MD5'')]"

definition closed_fields :: query where
  "closed_fields =
     [(''pid'', ''1001''), (''out_trade_no'', ''20250401000000123''), (''type'', ''alipay''),
      (''name'', ''pro-monthly''), (''money'', ''9.90''), (''trade_status'', ''TRADE_CLOSED'')]"

definition closed_notify :: query where
  "closed_notify =
     closed_fields @ [(''sign'', sign_of sample_host (verifyParams closed_fields) ''k3y'')]"

definition cheap_fields :: query where
  "cheap_fields =
     [(''pid'', ''1001''), (''trade_no'', ''T77''), (''out_trade_no'', ''20250401000000123''),
      (''type'', ''alipay''), (''name'', ''pro-monthly''), (''money'', ''0.01''),
      (''trade_status'', ''TRADE_SUCCESS'')]"

definition cheap_notify :: query where
  "cheap_notify =
     cheap_fields @ [(''sign'', sign_of sample_host (verifyParams cheap_fields) ''k3y'')]"

definition noisy_notify :: query where
  "noisy_notify = (''utm_source'', ''mail'') # sample_notify @ [(''money'', ''0.01''), (''extra'', ''1'')]"

text \<open>The catalogue, the world and the request of the issuing example: two such requests
  arrive in the same second and draw the same random number.\<close>

definition sample_catalogue :: catalogue where
  "sample_catalogue =
     [''pro-monthly'' \<mapsto>
        \<lparr>prod_name = ''pro-monthly'', price = ''9.90'', isSubscription = True,
         subscriptionPeriod = Some ''monthly''\<rparr>]"

definition sample_issue :: issue_world where
  "sample_issue =
     \<lparr>auth_user = Some ''u1'', issue_now = (2025, 3, 1, 0), issue_random = 123,
      store_now = (2025, 3, 1, 0)\<rparr>"

definition sample_body :: url_body where
  "sample_body = \<lparr>productId = ''pro-monthly'', payType = None\<rparr>"

text \<open>The row that the first of the two requests inserts.\<close>

definition issued_order :: transaction where
  "issued_order =
     \<lparr>user_id = ''u1'', product_id = ''pro-monthly'', name = ''pro-monthly'',
      out_trade_no = ''20250401000000123'', trade_no = None, money = 990,
      pay_type = ''alipay'', status = ''pending'', is_subscription = True,
      subscription_period = Some ''monthly'',
      subscription_start_date = None, subscription_end_date = None,
      created_at = (2025, 3, 1, 0), updated_at = (2025, 3, 1, 0)\<rparr>"

text \<open>A run in which the store answers the subscription query with an error, and the
  pending order as that run leaves it.\<close>

definition outage_world :: world where
  "outage_world = sample_world\<lparr>subs_error := True\<rparr>"

definition restarted_order :: transaction where
  "restarted_order =
     pending_order\<lparr>status := ''paid'', trade_no := Some ''T77'',
       subscription_start_date := Some (2025, 3, 1, 0),
       subscription_end_date := Some (2025, 4, 1, 0)\<rparr>"

text \<open>
  A host in a zone with daylight saving time: New York in 2025, five hours behind UTC,
  and four hours from 9 March 07:00 to 2 November 06:00 (UTC). A local time that the
  change of 9 March skips (02:00 to 03:00) or that of 2 November repeats (01:00 to 02:00)
  is read with the offset in force before the change, as ECMA-262 prescribes. \<open>earlier\<close>
  and \<open>later\<close> move fields by less than a day.
\<close>

definition prev_day :: "int \<times> nat \<times> nat \<Rightarrow> int \<times> nat \<times> nat" where
  "prev_day dt =
     (case dt of (y, m, d) \<Rightarrow>
        if 1 < d then (y, m, d - 1)
        else if 0 < m then (y, m - 1, DaysInMonth y (m - 1))
        else (y - 1, 11, 31))"

definition earlier :: "nat \<Rightarrow> date \<Rightarrow> date" where
  "earlier k dt =
     (case dt of (y, m, d, t) \<Rightarrow>
        if k \<le> t then (y, m, d, t - k)
        else (case prev_day (y, m, d) of (y', m', d') \<Rightarrow> (y', m', d', t + 86400000 - k)))"

definition later :: "nat \<Rightarrow> date \<Rightarrow> date" where
  "later k dt =
     (case dt of (y, m, d, t) \<Rightarrow>
        (case MakeDay y m (d + (t + k) div 86400000) of
           (y', m', d') \<Rightarrow> (y', m', d', (t + k) mod 86400000)))"

definition eastern_host :: host where
  "eastern_host =
     \<lparr>localeCompare = byte_compare, md5_hex = (\<lambda>s. s),
      LocalTime = (\<lambda>u. if (2025, 2, 9, 25200000) \<le> u \<and> u < (2025, 10, 2, 21600000)
                        then earlier 14400000 u else earlier 18000000 u),
      UTC = (\<lambda>l. if (2025, 2, 9, 10800000) \<le> l \<and> l < (2025, 10, 2, 7200000)
                  then later 14400000 l else later 18000000 l)\<rparr>"

text \<open>A second pending order of user \<open>u1\<close>, for another product, amount and payment
  type, and the ledger with it.\<close>

definition upgrade_order :: transaction where
  "upgrade_order =
     \<lparr>user_id = ''u1'', product_id = ''team-yearly'', name = ''team-yearly'',
      out_trade_no = ''20250402093015007'', trade_no = None, money = 120005,
      pay_type = ''wxpay'', status = ''pending'', is_subscription = True,
      subscription_period = Some ''yearly'',
      subscription_start_date = None, subscription_end_date = None,
      created_at = (2025, 3, 2, 34215000), updated_at = (2025, 3, 2, 34215000)\<rparr>"

definition second_ledger :: ledger where
  "second_ledger = [paid_order, pending_order, upgrade_order]"

text \<open>
  ECMA-262 requires \<^verbatim>\<open>localeCompare\<close> to return \<open>0\<close> for strings that are canonically
  equivalent in Unicode. \<open>decompose\<close> is the canonical decomposition for strings whose only
  precomposed character is U+00E9 (bytes C3 A9), which decomposes into U+0065 U+0301
  (bytes 65 CC 81); \<open>canonical_compare\<close> compares the decompositions.
\<close>

fun decompose :: "string \<Rightarrow> string" where
  "decompose [] = []"
| "decompose [c] = [c]"
| "decompose (c # d # s) =
     (if c = CHR 0xC3 \<and> d = CHR 0xA9 then CHR 0x65 # CHR 0xCC # CHR 0x81 # decompose s
      else c # decompose (d # s))"

definition canonical_compare :: "string \<Rightarrow> string \<Rightarrow> int" where
  "canonical_compare a b = byte_compare (decompose a) (decompose b)"

text \<open>A pending order of 99.00 and a notification for it that names the amount 99.001.\<close>

definition dear_order :: transaction where
  "dear_order = pending_order\<lparr>money := 9900\<rparr>"

definition dear_fields :: query where
  "dear_fields =
     [(''pid'', ''1001''), (''trade_no'', ''T78''), (''out_trade_no'', ''20250401000000123''),
      (''type'', ''alipay''), (''name'', ''pro-monthly''), (''money'', ''99.001''),
      (''trade_status'', ''TRADE_SUCCESS'')]"

definition dear_notify :: query where
  "dear_notify =
     dear_fields @ [(''sign'', sign_of sample_host (verifyParams dear_fields) ''k3y'')]"

section \<open>Evaluating the example\<close>

lemma decimal_9_90: "decimal_prefix ''9.90'' = Some (99 / 10)"
  by (simp add: decimal_prefix_def is_digit_def digits_val_def digit_val_def
      exponent_part_def pow10_def)

lemma double_9_90: "to_double (99 / 10) = Fin (5573204538870989 / 562949953421312)"
  by code_simp

lemma double_0: "to_double 0 = Fin 0"
  by (simp add: to_double_def)

lemma double_0_001: "to_double (1 / 1000) = Fin (1152921504606847 / 1152921504606846976)"
  by code_simp

lemma parseFloat_9_90: "parseFloat ''9.90'' = Fin (5573204538870989 / 562949953421312)"
  by (simp add: parseFloat_def trim_start_def white_space_def unsigned_literal_def
      decimal_9_90 double_9_90)

lemma money_9_90: "\<not> money_mismatch ''9.90'' 990"
  by (simp add: money_mismatch_def parseFloat_9_90 double_9_90 double_0 double_0_001 isNaN_def)

lemma sample_verifyParams: "verifyParams sample_notify = verifyParams sample_fields"
  by (simp add: verifyParams_def notify_fields_def field_def sample_notify_def sample_fields_def)

lemma sample_sign:
  "field sample_notify ''sign'' = sign_of sample_host (verifyParams sample_notify) ''k3y''"
  unfolding sample_verifyParams by (simp add: field_def sample_notify_def sample_fields_def)

lemma sample_field_values:
  "field sample_notify ''trade_status'' = ''TRADE_SUCCESS''"
  "field sample_notify ''out_trade_no'' = ''20250401000000123''"
  "field sample_notify ''money'' = ''9.90''"
  "field sample_notify ''trade_no'' = ''T77''"
  by (simp_all add: field_def sample_notify_def sample_fields_def)

lemma sample_key: "ZPAY_KEY sample_config = Some ''k3y''" "''k3y'' \<noteq> []"
  by (simp_all add: sample_config_def)

lemma sample_no_errors:
  "\<not> select_error sample_world" "\<not> subs_error sample_world" "\<not> update_error sample_world"
  by (simp_all add: sample_world_def)

lemma sample_lookup:
  "single (filter (\<lambda>r. out_trade_no r = field sample_notify ''out_trade_no'') sample_ledger)
     = Some pending_order"
  by (simp add: sample_field_values single_def sample_ledger_def paid_order_def pending_order_def)

lemma sample_checks:
  "webhook_checks sample_host sample_config sample_world sample_ledger sample_notify
     = Inr pending_order"
  by (simp add: webhook_checks_def sample_sign sample_field_values money_9_90 single_def
      sample_config_def sample_world_def sample_ledger_def paid_order_def pending_order_def)

lemma sample_startDate: "startDate sample_world sample_ledger ''u1'' = (2025, 3, 15, 0)"
  by (simp add: startDate_def existingSubscriptions_def active_end_dates_def sample_world_def
      sample_ledger_def paid_order_def pending_order_def)

lemma sample_endDate: "endDate sample_host ''monthly'' (2025, 3, 15, 0) = (2025, 4, 15, 0)"
  by (simp add: endDate_def setMonth_next_def sample_host_def MakeDay_def roll_days.simps
      DaysInMonth_def)

lemma sample_updateData:
  "updateData sample_host sample_world sample_ledger pending_order sample_notify =
     \<lparr>ud_status = ''paid'', ud_trade_no = ''T77'', ud_updated_at = (2025, 3, 1, 0),
      ud_subscription_start_date = Some (2025, 3, 15, 0),
      ud_subscription_end_date = Some (2025, 4, 15, 0)\<rparr>"
proof -
  have "now_updated sample_world = (2025, 3, 1, 0)"
    by (simp add: sample_world_def)
  then show ?thesis
    by (simp add: updateData_def Let_def pending_order_def sample_field_values
        sample_startDate sample_endDate)
qed

lemma sample_GET:
  "GET sample_host sample_config sample_world sample_ledger sample_notify
     = (Success, [paid_order, settled_order])"
  by (simp add: GET_def GET_at_def sample_checks webhook_write_def sample_no_errors
      sample_updateData conditional_update_def sample_field_values still_pending_def)
     (simp add: sample_ledger_def paid_order_def pending_order_def settled_order_def
      apply_update_def)

section \<open>The conditional update\<close>

lemma conditional_update_length:
  "length (snd (conditional_update db no u)) = length db"
  by (simp add: conditional_update_def)

lemma conditional_update_nth:
  "i < length db \<Longrightarrow>
   snd (conditional_update db no u) ! i =
     (if still_pending no (db ! i) then apply_update u (db ! i) else db ! i)"
  by (simp add: conditional_update_def)

lemma conditional_update_none:
  "\<forall>r \<in> set db. \<not> still_pending no r \<Longrightarrow> conditional_update db no u = ([], db)"
  by (simp add: conditional_update_def filter_empty_conv map_idI)

lemma updateData_status: "ud_status (updateData h w db t q) = ''paid''"
  by (simp add: updateData_def Let_def split: option.splits)

lemma updateData_trade_no: "ud_trade_no (updateData h w db t q) = field q ''trade_no''"
  by (simp add: updateData_def Let_def split: option.splits)

text \<open>A run either leaves the ledger as it is, or has passed all checks and applied the
  conditional update.\<close>

lemma GET_at_cases:
  "snd (GET_at h cfg w dbr dbs dbw q) = dbw \<or>
   (\<exists>t. webhook_checks h cfg w dbr q = Inr t \<and> \<not> update_error w \<and>
        GET_at h cfg w dbr dbs dbw q =
          (Success, snd (conditional_update dbw (field q ''out_trade_no'') (updateData h w dbs t q))))"
  by (auto simp: GET_at_def webhook_write_def split: sum.splits prod.splits)

lemma GET_at_length: "length (snd (GET_at h cfg w dbr dbs dbw q)) = length dbw"
  using GET_at_cases [of h cfg w dbr dbs dbw q]
  by (auto simp: conditional_update_length)

lemma GET_at_not_pending:
  assumes "i < length dbw" "\<not> still_pending (field q ''out_trade_no'') (dbw ! i)"
  shows "snd (GET_at h cfg w dbr dbs dbw q) ! i = dbw ! i"
  using GET_at_cases [of h cfg w dbr dbs dbw q] assms
  by (auto simp: conditional_update_nth)

lemma GET_at_changed:
  assumes "i < length dbw" "snd (GET_at h cfg w dbr dbs dbw q) ! i \<noteq> dbw ! i"
  shows "still_pending (field q ''out_trade_no'') (dbw ! i) \<and>
         status (snd (GET_at h cfg w dbr dbs dbw q) ! i) = ''paid'' \<and>
         trade_no (snd (GET_at h cfg w dbr dbs dbw q) ! i) = Some (field q ''trade_no'')"
  using GET_at_cases [of h cfg w dbr dbs dbw q] assms
  by (auto simp: conditional_update_nth apply_update_def updateData_status updateData_trade_no
      split: if_splits)

lemma GET_at_zero_rows:
  assumes "webhook_checks h cfg w dbr q = Inr t" "\<not> update_error w"
    and "\<forall>r \<in> set dbw. \<not> still_pending (field q ''out_trade_no'') r"
  shows "GET_at h cfg w dbr dbs dbw q = (Success, dbw)"
  using assms by (simp add: GET_at_def webhook_write_def conditional_update_none)

lemma webhook_runs_length: "length (webhook_runs h cfg rs db) = length db"
  by (induction rs arbitrary: db) (auto simp: GET_at_length)

lemma webhook_runs_not_pending:
  "i < length db \<Longrightarrow> status (db ! i) \<noteq> ''pending'' \<Longrightarrow> webhook_runs h cfg rs db ! i = db ! i"
proof (induction rs arbitrary: db)
  case Nil
  then show ?case by simp
next
  case (Cons a rs)
  obtain w dbr dbs q where a: "a = (w, dbr, dbs, q)" by (cases a) auto
  let ?db = "snd (GET_at h cfg w dbr dbs db q)"
  have same: "?db ! i = db ! i"
    using Cons.prems by (intro GET_at_not_pending) (simp_all add: still_pending_def)
  have "webhook_runs h cfg rs ?db ! i = ?db ! i"
    using Cons.prems same by (intro Cons.IH) (simp_all add: GET_at_length)
  with same a show ?case by simp
qed

lemma webhook_runs_append:
  "webhook_runs h cfg (rs1 @ rs2) db = webhook_runs h cfg rs2 (webhook_runs h cfg rs1 db)"
  by (induction rs1 arbitrary: db) auto

lemma webhook_runs_same_or_paid:
  "i < length db \<Longrightarrow>
   webhook_runs h cfg rs db ! i = db ! i \<or> status (webhook_runs h cfg rs db ! i) = ''paid''"
proof (induction rs arbitrary: db)
  case Nil
  then show ?case by simp
next
  case (Cons a rs)
  obtain w dbr dbs q where a: "a = (w, dbr, dbs, q)" by (cases a) auto
  let ?db = "snd (GET_at h cfg w dbr dbs db q)"
  have len: "i < length ?db" using Cons.prems by (simp add: GET_at_length)
  show ?case
  proof (cases "?db ! i = db ! i")
    case True
    with Cons.IH [OF len] a show ?thesis by simp
  next
    case False
    then have paid: "status (?db ! i) = ''paid''"
      using GET_at_changed [OF Cons.prems] by simp
    then have "webhook_runs h cfg rs ?db ! i = ?db ! i"
      using len by (intro webhook_runs_not_pending) simp_all
    with paid a show ?thesis by simp
  qed
qed

section \<open>C1: one transition per order\<close>

text \<open>
  Claim C1. The only write of the webhook is the conditional update. In a run whose reads
  saw any tables \<open>dbr\<close> and \<open>dbs\<close> and whose update meets the ledger \<open>dbw\<close>, a row that
  differs afterwards was still pending, with the order number of the request, in \<open>dbw\<close>
  itself, and is now paid with the gateway's trade number. When the run reaches the
  update and no row of \<open>dbw\<close> is pending under that number, it answers \<open>success\<close> and
  leaves \<open>dbw\<close> as it is. Over any history of runs the ledger keeps its rows; a row whose
  status changes goes from pending to paid; and a row that is paid after a history is the
  same row (status, trade number, subscription dates and all other columns) after any
  longer history.
\<close>

theorem webhook_at_most_one_transition:
  "(\<forall>i < length dbw.
      snd (GET_at h cfg w dbr dbs dbw q) ! i \<noteq> dbw ! i \<longrightarrow>
        still_pending (field q ''out_trade_no'') (dbw ! i) \<and>
        status (snd (GET_at h cfg w dbr dbs dbw q) ! i) = ''paid'' \<and>
        trade_no (snd (GET_at h cfg w dbr dbs dbw q) ! i) = Some (field q ''trade_no''))
   \<and> (webhook_checks h cfg w dbr q = Inr t \<and> \<not> update_error w \<and>
        (\<forall>r \<in> set dbw. \<not> still_pending (field q ''out_trade_no'') r) \<longrightarrow>
          GET_at h cfg w dbr dbs dbw q = (Success, dbw))
   \<and> length (webhook_runs h cfg rs db) = length db
   \<and> (\<forall>i < length db.
        status (webhook_runs h cfg rs db ! i) \<noteq> status (db ! i) \<longrightarrow>
          status (db ! i) = ''pending'' \<and> status (webhook_runs h cfg rs db ! i) = ''paid'')
   \<and> (\<forall>i < length db.
        status (webhook_runs h cfg rs db ! i) = ''paid'' \<longrightarrow>
          webhook_runs h cfg (rs @ rs') db ! i = webhook_runs h cfg rs db ! i)"
proof (intro conjI allI impI)
  fix i assume "i < length dbw" "snd (GET_at h cfg w dbr dbs dbw q) ! i \<noteq> dbw ! i"
  from GET_at_changed [OF this]
  show "still_pending (field q ''out_trade_no'') (dbw ! i)"
    and "status (snd (GET_at h cfg w dbr dbs dbw q) ! i) = ''paid''"
    and "trade_no (snd (GET_at h cfg w dbr dbs dbw q) ! i) = Some (field q ''trade_no'')"
    by simp_all
next
  assume "webhook_checks h cfg w dbr q = Inr t \<and> \<not> update_error w \<and>
          (\<forall>r \<in> set dbw. \<not> still_pending (field q ''out_trade_no'') r)"
  then show "GET_at h cfg w dbr dbs dbw q = (Success, dbw)"
    using GET_at_zero_rows by blast
next
  show "length (webhook_runs h cfg rs db) = length db"
    by (rule webhook_runs_length)
next
  fix i assume i: "i < length db"
    and diff: "status (webhook_runs h cfg rs db ! i) \<noteq> status (db ! i)"
  from diff webhook_runs_not_pending [OF i] show "status (db ! i) = ''pending''"
    by metis
  from diff webhook_runs_same_or_paid [OF i]
  show "status (webhook_runs h cfg rs db ! i) = ''paid''" by metis
next
  fix i assume i: "i < length db" and paid: "status (webhook_runs h cfg rs db ! i) = ''paid''"
  have "webhook_runs h cfg rs' (webhook_runs h cfg rs db) ! i = webhook_runs h cfg rs db ! i"
    using i paid by (intro webhook_runs_not_pending) (simp_all add: webhook_runs_length)
  then show "webhook_runs h cfg (rs @ rs') db ! i = webhook_runs h cfg rs db ! i"
    by (simp add: webhook_runs_append)
qed

lemma sample_run_once:
  "webhook_runs sample_host sample_config [sample_run] sample_ledger = [paid_order, settled_order]"
  using sample_GET by (simp add: GET_def sample_run_def)

lemma settled_order_paid: "status settled_order = ''paid''"
  by (simp add: settled_order_def)

lemma settled_not_pending:
  "\<forall>r \<in> set [paid_order, settled_order]. \<not> still_pending (field sample_notify ''out_trade_no'') r"
  by (simp add: still_pending_def settled_order_def paid_order_def)

theorem webhook_at_most_one_transition_witness:
  "status (sample_ledger ! 1) = ''pending''
   \<and> webhook_runs sample_host sample_config [sample_run] sample_ledger ! 1 = settled_order
   \<and> status settled_order = ''paid''
   \<and> webhook_runs sample_host sample_config ([sample_run] @ [sample_run]) sample_ledger ! 1
       = settled_order
   \<and> GET_at sample_host sample_config sample_world sample_ledger sample_ledger
         [paid_order, settled_order] sample_notify
       = (Success, [paid_order, settled_order])"
proof -
  note inst = webhook_at_most_one_transition
    [where h = sample_host and cfg = sample_config and w = sample_world
       and dbr = sample_ledger and dbs = sample_ledger
       and dbw = "[paid_order, settled_order]" and q = sample_notify and t = pending_order
       and rs = "[sample_run]" and rs' = "[sample_run]" and db = sample_ledger]
  have pending: "status (sample_ledger ! 1) = ''pending''"
    by (simp add: sample_ledger_def pending_order_def)
  have once: "webhook_runs sample_host sample_config [sample_run] sample_ledger ! 1 = settled_order"
    unfolding sample_run_once by simp
  have len: "(1::nat) < length sample_ledger"
    by (simp add: sample_ledger_def)
  have paid: "status (webhook_runs sample_host sample_config [sample_run] sample_ledger ! 1) = ''paid''"
    by (simp only: once settled_order_paid)
  have twice: "webhook_runs sample_host sample_config ([sample_run] @ [sample_run]) sample_ledger ! 1
      = settled_order"
    using inst [THEN conjunct2, THEN conjunct2, THEN conjunct2, THEN conjunct2, rule_format, OF len paid]
    by (simp only: once)
  have zero: "GET_at sample_host sample_config sample_world sample_ledger sample_ledger
      [paid_order, settled_order] sample_notify = (Success, [paid_order, settled_order])"
    using inst [THEN conjunct2, THEN conjunct1, rule_format] sample_checks sample_no_errors(3)
      settled_not_pending
    by (intro inst [THEN conjunct2, THEN conjunct1, rule_format] conjI)
  from pending once settled_order_paid twice zero show ?thesis
    by (intro conjI)
qed

section \<open>Replays\<close>

lemma webhook_checks_paid:
  assumes "ZPAY_KEY cfg = Some key" "key \<noteq> []"
    and "field q ''sign'' = sign_of h (verifyParams q) key"
    and "field q ''trade_status'' = ''TRADE_SUCCESS''"
    and "\<not> select_error w"
    and "single (filter (\<lambda>r. out_trade_no r = field q ''out_trade_no'') dbr) = Some t"
    and "status t = ''paid''"
  shows "webhook_checks h cfg w dbr q = Inl Success"
  using assms by (simp add: webhook_checks_def)

lemma GET_at_early: "webhook_checks h cfg w dbr q = Inl r \<Longrightarrow> GET_at h cfg w dbr dbs dbw q = (r, dbw)"
  by (simp add: GET_at_def)

lemma single_Some_iff: "single xs = Some x \<longleftrightarrow> xs = [x]"
  by (auto simp: single_def split: list.splits)

text \<open>After a run that answered \<open>success\<close>, no row with the order number of the request
  is pending any more.\<close>

lemma conditional_update_settles:
  "ud_status u \<noteq> ''pending'' \<Longrightarrow>
   \<forall>r \<in> set (snd (conditional_update db no u)). \<not> still_pending no r"
proof
  fix r assume "ud_status u \<noteq> ''pending''"
    and "r \<in> set (snd (conditional_update db no u))"
  then have "r \<in> (\<lambda>r0. if still_pending no r0 then apply_update u r0 else r0) ` set db"
    by (simp add: conditional_update_def)
  then obtain r0 where r: "r = (if still_pending no r0 then apply_update u r0 else r0)"
    by blast
  show "\<not> still_pending no r"
  proof (cases "still_pending no r0")
    case True
    with r \<open>ud_status u \<noteq> ''pending''\<close> show ?thesis
      by (simp add: still_pending_def apply_update_def)
  next
    case False
    with r show ?thesis by simp
  qed
qed

lemma webhook_checks_Success:
  assumes "webhook_checks h cfg w db q = Inl Success"
  shows "field q ''trade_status'' \<noteq> ''TRADE_SUCCESS'' \<or>
         (\<forall>r \<in> set db. \<not> still_pending (field q ''out_trade_no'') r)"
proof (rule disjCI)
  assume "\<not> (\<forall>r \<in> set db. \<not> still_pending (field q ''out_trade_no'') r)"
  then obtain r where r: "r \<in> set db" "out_trade_no r = field q ''out_trade_no''" "status r = ''pending''"
    by (auto simp: still_pending_def)
  show "field q ''trade_status'' \<noteq> ''TRADE_SUCCESS''"
  proof
    assume ts: "field q ''trade_status'' = ''TRADE_SUCCESS''"
    from assms ts obtain t where
      t: "single (filter (\<lambda>r. out_trade_no r = field q ''out_trade_no'') db) = Some t" "status t = ''paid''"
      by (auto simp: webhook_checks_def split: option.splits if_splits)
    then have "filter (\<lambda>r. out_trade_no r = field q ''out_trade_no'') db = [t]"
      by (simp add: single_Some_iff)
    moreover have "r \<in> set (filter (\<lambda>r. out_trade_no r = field q ''out_trade_no'') db)"
      using r by simp
    ultimately have "r = t" by simp
    with r t show False by simp
  qed
qed

lemma webhook_checks_trade_status:
  "field q ''trade_status'' \<noteq> ''TRADE_SUCCESS'' \<Longrightarrow> webhook_checks h cfg w db q = Inr t \<Longrightarrow> False"
  by (auto simp: webhook_checks_def split: option.splits if_splits)

lemma webhook_checks_not_success_status:
  "field q ''trade_status'' \<noteq> ''TRADE_SUCCESS'' \<Longrightarrow> webhook_checks h cfg w db q = webhook_checks h cfg w' db' q"
  by (auto simp: webhook_checks_def split: option.splits if_splits)

lemma GET_Success_settled:
  assumes "fst (GET h cfg w db q) = Success"
  shows "field q ''trade_status'' \<noteq> ''TRADE_SUCCESS'' \<and> snd (GET h cfg w db q) = db \<and> webhook_checks h cfg w db q = Inl Success \<or>
         (\<forall>r \<in> set (snd (GET h cfg w db q)). \<not> still_pending (field q ''out_trade_no'') r)"
proof (cases "webhook_checks h cfg w db q")
  case (Inl r)
  with assms have "r = Success" and same: "snd (GET h cfg w db q) = db"
    by (simp_all add: GET_def GET_at_def)
  with Inl webhook_checks_Success [of h cfg w db q] same show ?thesis by auto
next
  case (Inr t)
  with assms have "\<not> update_error w"
    by (auto simp: GET_def GET_at_def webhook_write_def split: if_splits)
  with Inr have eq: "snd (GET h cfg w db q) =
      snd (conditional_update db (field q ''out_trade_no'') (updateData h w db t q))"
    by (simp add: GET_def GET_at_def webhook_write_def split: prod.splits)
  have "ud_status (updateData h w db t q) \<noteq> ''pending''"
    by (simp add: updateData_status)
  from conditional_update_settles [OF this]
  have "\<forall>r \<in> set (snd (GET h cfg w db q)). \<not> still_pending (field q ''out_trade_no'') r"
    unfolding eq .
  then show ?thesis ..
qed

lemma GET_at_no_pending:
  assumes "\<forall>r \<in> set dbw. \<not> still_pending (field q ''out_trade_no'') r"
  shows "snd (GET_at h cfg w dbr dbs dbw q) = dbw"
  using GET_at_cases [of h cfg w dbr dbs dbw q] assms
  by (auto simp: conditional_update_none)

lemma webhook_checks_Inr:
  assumes "webhook_checks h cfg w db q = Inr t"
  shows "truthy (ZPAY_KEY cfg)"
    and "field q ''sign'' = sign_of h (verifyParams q) (the (ZPAY_KEY cfg))"
    and "field q ''trade_status'' = ''TRADE_SUCCESS''"
    and "\<not> select_error w"
    and "filter (\<lambda>r. out_trade_no r = field q ''out_trade_no'') db = [t]"
    and "status t \<noteq> ''paid''"
    and "\<not> money_mismatch (field q ''money'') (money t)"
  using assms
  by (auto simp: webhook_checks_def truthy_def single_Some_iff split: option.splits if_splits)

lemma apply_update_out_trade_no: "out_trade_no (apply_update u r) = out_trade_no r"
  by (simp add: apply_update_def)

lemma conditional_update_filter:
  "filter (\<lambda>r. out_trade_no r = no') (snd (conditional_update db no u)) =
   map (\<lambda>r. if still_pending no r then apply_update u r else r)
     (filter (\<lambda>r. out_trade_no r = no') db)"
  by (induction db) (auto simp: conditional_update_def apply_update_out_trade_no)

lemma GET_first_transition:
  assumes c: "webhook_checks h cfg w db q = Inr t" and p: "status t = ''pending''"
    and u: "\<not> update_error w"
  shows "GET h cfg w db q =
           (Success, map (\<lambda>r. if r = t then apply_update (updateData h w db t q) r else r) db)"
proof -
  have f: "filter (\<lambda>r. out_trade_no r = field q ''out_trade_no'') db = [t]"
    using c by (rule webhook_checks_Inr)
  have "still_pending (field q ''out_trade_no'') r \<longleftrightarrow> r = t" if "r \<in> set db" for r
  proof
    assume "still_pending (field q ''out_trade_no'') r"
    with that have "r \<in> set (filter (\<lambda>r. out_trade_no r = field q ''out_trade_no'') db)"
      by (simp add: still_pending_def)
    then show "r = t" unfolding f by simp
  next
    assume "r = t"
    moreover have "t \<in> set (filter (\<lambda>r. out_trade_no r = field q ''out_trade_no'') db)"
      unfolding f by simp
    ultimately show "still_pending (field q ''out_trade_no'') r"
      using p by (simp add: still_pending_def)
  qed
  then have "map (\<lambda>r. if still_pending (field q ''out_trade_no'') r
                       then apply_update (updateData h w db t q) r else r) db =
             map (\<lambda>r. if r = t then apply_update (updateData h w db t q) r else r) db"
    by (intro map_cong) simp_all
  with c u show ?thesis
    by (simp add: GET_def GET_at_def webhook_write_def conditional_update_def)
qed

lemma GET_second_run:
  assumes c: "webhook_checks h cfg w1 db q = Inr t" and p: "status t = ''pending''"
    and u: "\<not> update_error w1" and s: "\<not> select_error w2"
  shows "webhook_checks h cfg w2 (snd (GET h cfg w1 db q)) q = Inl Success"
proof -
  let ?no = "field q ''out_trade_no''"
  let ?u = "updateData h w1 db t q"
  have db': "snd (GET h cfg w1 db q) = snd (conditional_update db ?no ?u)"
    using c u by (simp add: GET_def GET_at_def webhook_write_def split: prod.splits)
  have f: "filter (\<lambda>r. out_trade_no r = ?no) db = [t]"
    using c by (rule webhook_checks_Inr)
  have "t \<in> set (filter (\<lambda>r. out_trade_no r = ?no) db)"
    unfolding f by simp
  then have "still_pending ?no t"
    using p by (simp add: still_pending_def)
  then have "filter (\<lambda>r. out_trade_no r = ?no) (snd (GET h cfg w1 db q)) = [apply_update ?u t]"
    unfolding db' conditional_update_filter f by simp
  then have "single (filter (\<lambda>r. out_trade_no r = ?no) (snd (GET h cfg w1 db q)))
      = Some (apply_update ?u t)"
    by (simp add: single_def)
  moreover have "status (apply_update ?u t) = ''paid''"
    by (simp add: apply_update_def updateData_status)
  ultimately show ?thesis
    using webhook_checks_Inr(1-3) [OF c] s
    by (intro webhook_checks_paid [where key = "the (ZPAY_KEY cfg)" and t = "apply_update ?u t"])
       (auto simp: truthy_def split: option.splits)
qed

section \<open>C5: the idempotency short-circuit\<close>

text \<open>
  Claim C5. When the order that a verified success notification names is already paid in
  the table the handler reads, the checks end with \<open>success\<close> before \<open>updateData\<close> is built,
  and the ledger is returned as it was. Reconciling a notification for a pending order
  and then the same notification again: the first run answers \<open>success\<close> and changes
  exactly the row of the order, the second run stops at the short-circuit and returns
  the ledger of the first, so both calls leave the same row with the same subscription
  dates. More generally, after a run that answered \<open>success\<close>, a second run of the same
  request leaves the ledger unchanged whatever its world.
\<close>

theorem webhook_idempotent_replay:
  "(ZPAY_KEY cfg = Some key \<and> key \<noteq> [] \<and>
    field q ''sign'' = sign_of h (verifyParams q) key \<and>
    field q ''trade_status'' = ''TRADE_SUCCESS'' \<and> \<not> select_error w \<and>
    single (filter (\<lambda>r. out_trade_no r = field q ''out_trade_no'') dbr) = Some t \<and>
    status t = ''paid'' \<longrightarrow>
      webhook_checks h cfg w dbr q = Inl Success \<and>
      GET_at h cfg w dbr dbs dbw q = (Success, dbw))
   \<and> (webhook_checks h cfg w1 db q = Inr t1 \<and> status t1 = ''pending'' \<and>
       \<not> update_error w1 \<and> \<not> select_error w2 \<longrightarrow>
        GET h cfg w1 db q =
          (Success, map (\<lambda>r. if r = t1 then apply_update (updateData h w1 db t1 q) r else r) db) \<and>
        webhook_checks h cfg w2 (snd (GET h cfg w1 db q)) q = Inl Success \<and>
        GET h cfg w2 (snd (GET h cfg w1 db q)) q = (Success, snd (GET h cfg w1 db q)))
   \<and> (fst (GET h cfg w1 db q) = Success \<longrightarrow>
        snd (GET h cfg w2 (snd (GET h cfg w1 db q)) q) = snd (GET h cfg w1 db q))"
proof (intro conjI impI)
  assume a: "ZPAY_KEY cfg = Some key \<and> key \<noteq> [] \<and>
    field q ''sign'' = sign_of h (verifyParams q) key \<and>
    field q ''trade_status'' = ''TRADE_SUCCESS'' \<and> \<not> select_error w \<and>
    single (filter (\<lambda>r. out_trade_no r = field q ''out_trade_no'') dbr) = Some t \<and>
    status t = ''paid''"
  then show c: "webhook_checks h cfg w dbr q = Inl Success"
    by (intro webhook_checks_paid [where key = key and t = t]) simp_all
  then show "GET_at h cfg w dbr dbs dbw q = (Success, dbw)"
    by (rule GET_at_early)
next
  assume a: "webhook_checks h cfg w1 db q = Inr t1 \<and> status t1 = ''pending'' \<and>
       \<not> update_error w1 \<and> \<not> select_error w2"
  then show "GET h cfg w1 db q =
          (Success, map (\<lambda>r. if r = t1 then apply_update (updateData h w1 db t1 q) r else r) db)"
    by (intro GET_first_transition) simp_all
  from a show s: "webhook_checks h cfg w2 (snd (GET h cfg w1 db q)) q = Inl Success"
    by (intro GET_second_run [where t = t1]) simp_all
  then show "GET h cfg w2 (snd (GET h cfg w1 db q)) q = (Success, snd (GET h cfg w1 db q))"
    unfolding GET_def [of h cfg w2] by (rule GET_at_early)
next
  assume s: "fst (GET h cfg w1 db q) = Success"
  let ?db = "snd (GET h cfg w1 db q)"
  from GET_Success_settled [OF s]
  show "snd (GET h cfg w2 ?db q) = ?db"
  proof
    assume n: "field q ''trade_status'' \<noteq> ''TRADE_SUCCESS'' \<and> ?db = db \<and>
      webhook_checks h cfg w1 db q = Inl Success"
    then have "webhook_checks h cfg w2 db q = Inl Success"
      using webhook_checks_not_success_status [of q h cfg w2 db w1 db] by simp
    with n show ?thesis by (simp add: GET_def GET_at_def)
  next
    assume "\<forall>r \<in> set ?db. \<not> still_pending (field q ''out_trade_no'') r"
    then show ?thesis unfolding GET_def [of h cfg w2] by (rule GET_at_no_pending)
  qed
qed

theorem webhook_idempotent_replay_witness:
  "GET sample_host sample_config sample_world sample_ledger sample_notify
     = (Success, [paid_order, settled_order])
   \<and> webhook_checks sample_host sample_config sample_world [paid_order, settled_order] sample_notify
       = Inl Success
   \<and> GET sample_host sample_config sample_world [paid_order, settled_order] sample_notify
       = (Success, [paid_order, settled_order])"
proof -
  note inst = webhook_idempotent_replay
    [where h = sample_host and cfg = sample_config and ?w1.0 = sample_world
       and ?w2.0 = sample_world and db = sample_ledger and q = sample_notify
       and ?t1.0 = pending_order]
  have pending: "status pending_order = ''pending''"
    by (simp add: pending_order_def)
  have "webhook_checks sample_host sample_config sample_world
          (snd (GET sample_host sample_config sample_world sample_ledger sample_notify))
          sample_notify = Inl Success \<and>
        GET sample_host sample_config sample_world
          (snd (GET sample_host sample_config sample_world sample_ledger sample_notify))
          sample_notify =
        (Success, snd (GET sample_host sample_config sample_world sample_ledger sample_notify))"
    using inst [THEN conjunct2, THEN conjunct1, rule_format] sample_checks pending
      sample_no_errors(1,3)
    by blast
  then show ?thesis
    by (simp add: sample_GET)
qed

section \<open>C6: rejections and acknowledgements\<close>

text \<open>
  Claim C6. With the key configured: a signature that does not match ends the run with
  status 400 and the ledger untouched; so does a verified success notification whose
  order number matches no row, and one whose amount fails the amount check against the
  row that was found (a row not yet paid: the handler checks the amount after the
  short-circuit for paid orders). A verified notification whose trade status is not
  \<^verbatim>\<open>TRADE_SUCCESS\<close> is answered with \<open>success\<close>, status 200, and the ledger untouched.
\<close>

theorem webhook_failure_semantics:
  assumes "ZPAY_KEY cfg = Some key" "key \<noteq> []"
  shows
  "(field q ''sign'' \<noteq> sign_of h (verifyParams q) key \<longrightarrow>
      GET_at h cfg w dbr dbs dbw q = (SignatureFailed, dbw))
   \<and> (field q ''sign'' = sign_of h (verifyParams q) key \<and>
        field q ''trade_status'' \<noteq> ''TRADE_SUCCESS'' \<longrightarrow>
      GET_at h cfg w dbr dbs dbw q = (Success, dbw))
   \<and> (field q ''sign'' = sign_of h (verifyParams q) key \<and>
        field q ''trade_status'' = ''TRADE_SUCCESS'' \<and>
        filter (\<lambda>r. out_trade_no r = field q ''out_trade_no'') dbr = [] \<longrightarrow>
      GET_at h cfg w dbr dbs dbw q = (OrderMissing, dbw))
   \<and> (field q ''sign'' = sign_of h (verifyParams q) key \<and>
        field q ''trade_status'' = ''TRADE_SUCCESS'' \<and> \<not> select_error w \<and>
        single (filter (\<lambda>r. out_trade_no r = field q ''out_trade_no'') dbr) = Some t \<and>
        status t \<noteq> ''paid'' \<and> money_mismatch (field q ''money'') (money t) \<longrightarrow>
      GET_at h cfg w dbr dbs dbw q = (MoneyMismatch, dbw))
   \<and> status_code SignatureFailed \<noteq> 200 \<and> status_code OrderMissing \<noteq> 200
   \<and> status_code MoneyMismatch \<noteq> 200 \<and> status_code Success = 200"
  using assms by (simp add: GET_at_def webhook_checks_def single_def)

lemma sample_signing_string:
  "getVerifyParams byte_compare (verifyParams sample_fields) =
     ''money=9.90&name=pro-monthly&out_trade_no=20250401000000123&pid=1001&trade_no=T77&trade_status=TRADE_SUCCESS&type=alipay''"
  by (simp add: getVerifyParams_def verifyParams_def notify_fields_def field_def sample_fields_def
      sPara_def skipped_def array_sort_def byte_compare_def key_value_def)

lemma forged_verifyParams: "verifyParams forged_notify = verifyParams sample_fields"
  by (simp add: verifyParams_def notify_fields_def field_def forged_notify_def sample_fields_def)

lemma forged_sign:
  "field forged_notify ''sign'' \<noteq> sign_of sample_host (verifyParams forged_notify) ''k3y''"
  unfolding forged_verifyParams
  by (simp add: sign_of_def sample_host_def sample_signing_string)
     (simp add: field_def forged_notify_def sample_fields_def)

lemma double_0_01: "to_double (1 / 100) = Fin (5764607523034235 / 576460752303423488)"
  by code_simp

lemma double_diff:
  "num_gt (Math_abs (num_sub (Fin (5764607523034235 / 576460752303423488))
                             (Fin (5573204538870989 / 562949953421312))))
          (Fin (1152921504606847 / 1152921504606846976))"
  by code_simp

lemma money_0_01: "money_mismatch ''0.01'' 990"
proof -
  have "decimal_prefix ''0.01'' = Some (1 / 100)"
    by (simp add: decimal_prefix_def is_digit_def digits_val_def digit_val_def
        exponent_part_def pow10_def)
  then have "parseFloat ''0.01'' = Fin (5764607523034235 / 576460752303423488)"
    by (simp add: parseFloat_def trim_start_def white_space_def unsigned_literal_def double_0_01)
  then show ?thesis
    by (simp add: money_mismatch_def double_9_90 double_0_001 isNaN_def double_diff
        del: num_sub.simps)
qed

lemma closed_verifyParams: "verifyParams closed_notify = verifyParams closed_fields"
  by (simp add: verifyParams_def notify_fields_def field_def closed_notify_def closed_fields_def)

lemma closed_sign:
  "field closed_notify ''sign'' = sign_of sample_host (verifyParams closed_notify) ''k3y''"
  unfolding closed_verifyParams by (simp add: field_def closed_notify_def closed_fields_def)

lemma closed_status: "field closed_notify ''trade_status'' \<noteq> ''TRADE_SUCCESS''"
  by (simp add: field_def closed_notify_def closed_fields_def)

lemma cheap_verifyParams: "verifyParams cheap_notify = verifyParams cheap_fields"
  by (simp add: verifyParams_def notify_fields_def field_def cheap_notify_def cheap_fields_def)

lemma cheap_sign:
  "field cheap_notify ''sign'' = sign_of sample_host (verifyParams cheap_notify) ''k3y''"
  unfolding cheap_verifyParams by (simp add: field_def cheap_notify_def cheap_fields_def)

lemma cheap_field_values:
  "field cheap_notify ''trade_status'' = ''TRADE_SUCCESS''"
  "field cheap_notify ''out_trade_no'' = ''20250401000000123''"
  "field cheap_notify ''money'' = ''0.01''"
  by (simp_all add: field_def cheap_notify_def cheap_fields_def)

theorem webhook_failure_semantics_witness:
  "GET sample_host sample_config sample_world sample_ledger forged_notify
     = (SignatureFailed, sample_ledger)
   \<and> GET sample_host sample_config sample_world sample_ledger closed_notify
     = (Success, sample_ledger)
   \<and> GET sample_host sample_config sample_world [paid_order] sample_notify
     = (OrderMissing, [paid_order])
   \<and> GET sample_host sample_config sample_world sample_ledger cheap_notify
     = (MoneyMismatch, sample_ledger)"
proof -
  note inst = webhook_failure_semantics [OF sample_key, where h = sample_host and w = sample_world]
  have a: "GET sample_host sample_config sample_world sample_ledger forged_notify
     = (SignatureFailed, sample_ledger)"
    unfolding GET_def using forged_sign
    by (intro inst [THEN conjunct1, rule_format])
  have b: "GET sample_host sample_config sample_world sample_ledger closed_notify
     = (Success, sample_ledger)"
    unfolding GET_def using closed_sign closed_status
    by (intro inst [THEN conjunct2, THEN conjunct1, rule_format] conjI)
  have "filter (\<lambda>r. out_trade_no r = field sample_notify ''out_trade_no'') [paid_order] = []"
    by (simp add: sample_field_values paid_order_def)
  then have c: "GET sample_host sample_config sample_world [paid_order] sample_notify
     = (OrderMissing, [paid_order])"
    unfolding GET_def using sample_sign sample_field_values(1)
    by (intro inst [THEN conjunct2, THEN conjunct2, THEN conjunct1, rule_format] conjI)
  have "single (filter (\<lambda>r. out_trade_no r = field cheap_notify ''out_trade_no'') sample_ledger)
     = Some pending_order"
    by (simp add: cheap_field_values single_def sample_ledger_def paid_order_def pending_order_def)
  moreover have "status pending_order \<noteq> ''paid''" "money pending_order = 990"
    by (simp_all add: pending_order_def)
  ultimately have d: "GET sample_host sample_config sample_world sample_ledger cheap_notify
     = (MoneyMismatch, sample_ledger)"
    unfolding GET_def using cheap_sign cheap_field_values money_0_01 sample_no_errors(1)
    by (intro inst [THEN conjunct2, THEN conjunct2, THEN conjunct2, THEN conjunct1, rule_format,
          where t = pending_order] conjI) simp_all
  from a b c d show ?thesis by (intro conjI)
qed

section \<open>C10: parameters outside the eight fields\<close>

lemma verifyParams_cong:
  "\<forall>k \<in> set notify_fields. field q k = field q' k \<Longrightarrow> verifyParams q = verifyParams q'"
  by (simp add: verifyParams_def cong: map_cong)

text \<open>
  Claim C10. The handler reads the request only through \<^verbatim>\<open>sign\<close> and the eight fields of
  \<open>notify_fields\<close>. Two requests that agree on these nine values yield the same
  verification parameters, the same expected signature, the same outcome of the checks
  and the same response and ledger, whatever other parameters they carry.
\<close>

theorem webhook_ignores_other_parameters:
  assumes "\<forall>k \<in> set (''sign'' # notify_fields). field q k = field q' k"
  shows "verifyParams q = verifyParams q'
    \<and> sign_of h (verifyParams q) key = sign_of h (verifyParams q') key
    \<and> webhook_checks h cfg w dbr q = webhook_checks h cfg w dbr q'
    \<and> GET_at h cfg w dbr dbs dbw q = GET_at h cfg w dbr dbs dbw q'"
proof -
  have v: "verifyParams q = verifyParams q'"
    using assms by (intro verifyParams_cong) simp
  have f: "field q ''sign'' = field q' ''sign''"
    "field q ''trade_status'' = field q' ''trade_status''"
    "field q ''out_trade_no'' = field q' ''out_trade_no''"
    "field q ''money'' = field q' ''money''"
    "field q ''trade_no'' = field q' ''trade_no''"
    using assms by (simp_all add: notify_fields_def)
  have c: "webhook_checks h cfg w dbr q = webhook_checks h cfg w dbr q'"
    unfolding webhook_checks_def v f by (rule refl)
  have u: "updateData h w dbs t q = updateData h w dbs t q'" for t
    unfolding updateData_def f by (rule refl)
  have "GET_at h cfg w dbr dbs dbw q = GET_at h cfg w dbr dbs dbw q'"
    unfolding GET_at_def c u webhook_write_def f by (rule refl)
  with v c show ?thesis by simp
qed

theorem webhook_ignores_other_parameters_witness:
  "noisy_notify \<noteq> sample_notify \<and>
   GET sample_host sample_config sample_world sample_ledger noisy_notify
     = (Success, [paid_order, settled_order])"
proof -
  have "\<forall>k \<in> set (''sign'' # notify_fields). field noisy_notify k = field sample_notify k"
    by (simp add: notify_fields_def field_def noisy_notify_def sample_notify_def sample_fields_def)
  from webhook_ignores_other_parameters [OF this, of sample_host "''k3y''" sample_config
      sample_world sample_ledger sample_ledger sample_ledger]
  have "GET sample_host sample_config sample_world sample_ledger noisy_notify
     = (Success, [paid_order, settled_order])"
    by (simp add: GET_def [symmetric] sample_GET)
  moreover have "noisy_notify \<noteq> sample_notify"
    by (simp add: noisy_notify_def)
  ultimately show ?thesis by simp
qed

section \<open>C8: regenerating the link\<close>

lemma POST_repay_not_found:
  assumes "no \<noteq> []"
    and "\<not> (\<exists>r \<in> set db. user_id r = uid \<and> out_trade_no r = no \<and> status r = ''pending'')"
  shows "POST_repay h cfg (Some uid) db (Some no) = OrderNotFoundOrPaid"
proof -
  have "filter (\<lambda>r. out_trade_no r = no \<and> status r = ''pending'') (visible_to uid db) = []"
    using assms(2) by (auto simp: visible_to_def filter_empty_conv)
  with assms(1) show ?thesis
    by (simp add: POST_repay_def single_def)
qed

text \<open>The amount of a link: \<open>String_money\<close> prints the decimal digits of the stored amount, and
  \<^verbatim>\<open>parseFloat\<close> reads them back as the double nearest to the stored amount.\<close>

lemma digit_values: "map digit_val ''0123456789'' = [0..<10]"
  by (simp add: digit_val_def upt_rec)

lemma digit_char:
  assumes "n < 10"
  shows "is_digit (''0123456789'' ! n)" and "digit_val (''0123456789'' ! n) = n"
proof -
  have "\<forall>c \<in> set ''0123456789''. is_digit c"
    by (simp add: is_digit_def)
  moreover have len: "n < length ''0123456789''"
    using assms by simp
  ultimately show "is_digit (''0123456789'' ! n)"
    using nth_mem by blast
  have "digit_val (''0123456789'' ! n) = map digit_val ''0123456789'' ! n"
    using len by (simp only: nth_map)
  also have "\<dots> = n"
    unfolding digit_values using assms by simp
  finally show "digit_val (''0123456789'' ! n) = n" .
qed

lemma digits_all: "\<forall>c \<in> set (digits n). is_digit c"
  by (induction n rule: digits.induct) (subst digits.simps, simp add: digit_char)

lemma digits_not_Nil: "digits n \<noteq> []"
  by (subst digits.simps) simp

lemma digits_val_snoc: "digits_val (ds @ [c]) = 10 * digits_val ds + digit_val c"
  by (simp add: digits_val_def)

lemma digits_val_digits: "digits_val (digits n) = n"
proof (induction n rule: digits.induct)
  case (1 n)
  show ?case
  proof (cases "n < 10")
    case True
    then show ?thesis
      by (subst digits.simps) (simp add: digits_val_def digit_char)
  next
    case False
    then have "digits_val (digits (n div 10)) = n div 10"
      using 1 by simp
    with False show ?thesis
      by (subst digits.simps) (simp add: digits_val_snoc digit_char)
  qed
qed

lemma digits_val_append:
  "digits_val (xs @ ys) = digits_val xs * 10 ^ length ys + digits_val ys"
proof (induction ys rule: rev_induct)
  case Nil
  then show ?case by (simp add: digits_val_def)
next
  case (snoc c ys)
  have "digits_val (xs @ ys @ [c]) = 10 * digits_val (xs @ ys) + digit_val c"
    using digits_val_snoc [of "xs @ ys" c] by simp
  with snoc show ?case
    by (simp add: digits_val_snoc algebra_simps)
qed

lemma length_digits_1: "n < 10 \<Longrightarrow> length (digits n) = 1"
  by (subst digits.simps) simp

lemma length_digits_2: "10 \<le> n \<Longrightarrow> n < 100 \<Longrightarrow> length (digits n) = 2"
  by (subst digits.simps) (simp add: length_digits_1)

lemma decimal_prefix_integer:
  assumes "\<forall>c \<in> set ds. is_digit c" "ds \<noteq> []"
  shows "decimal_prefix ds = Some (of_nat (digits_val ds))"
proof -
  have tw: "takeWhile is_digit ds = ds" "dropWhile is_digit ds = []"
    using assms(1) by (simp_all add: takeWhile_eq_all_conv)
  show ?thesis
    unfolding decimal_prefix_def tw using assms(2)
    by (simp add: exponent_part_def pow10_def)
qed

lemma decimal_prefix_fraction:
  assumes "\<forall>c \<in> set ds. is_digit c" "\<forall>c \<in> set fs. is_digit c" "fs \<noteq> []"
  shows "decimal_prefix (ds @ ''.'' @ fs) = Some (of_nat (digits_val (ds @ fs)) / 10 ^ length fs)"
proof -
  have dot: "\<not> is_digit CHR ''.''"
    by (simp add: is_digit_def)
  have tw: "takeWhile is_digit (ds @ ''.'' @ fs) = ds"
    "dropWhile is_digit (ds @ ''.'' @ fs) = CHR ''.'' # fs"
    using assms(1) dot by (simp_all add: takeWhile_append2 dropWhile_append2)
  have tf: "takeWhile is_digit fs = fs" "dropWhile is_digit fs = []"
    using assms(2) by (simp_all add: takeWhile_eq_all_conv)
  show ?thesis
    unfolding decimal_prefix_def tw using assms(3)
    by (simp add: tf exponent_part_def pow10_def)
qed

lemma hundredths:
  "(of_nat a :: rat) = 100 * of_nat (a div 100) + of_nat (a mod 100)"
  by (metis div_mult_mod_eq mult.commute of_nat_add of_nat_mult of_nat_numeral)

lemma String_money_value:
  "decimal_prefix (String_money (int a)) = Some (of_nat a / 100)"
proof -
  let ?ip = "a div 100" and ?fp = "a mod 100"
  note ra = hundredths [of a]
  consider "?fp = 0" | "?fp \<noteq> 0" "?fp mod 10 = 0" | "?fp mod 10 \<noteq> 0" by blast
  then show ?thesis
  proof cases
    case 1
    then have "String_money (int a) = digits ?ip"
      by (simp add: String_money_def Let_def)
    moreover have "(of_nat a :: rat) / 100 = of_nat ?ip"
      using ra 1 by simp
    ultimately show ?thesis
      by (simp add: decimal_prefix_integer digits_all digits_not_Nil digits_val_digits)
  next
    case 2
    let ?t = "?fp div 10"
    have t: "?t < 10" by simp
    have s: "String_money (int a) = digits ?ip @ ''.'' @ digits ?t"
      using 2 by (simp add: String_money_def Let_def)
    have "?fp = 10 * ?t" using 2 by (simp add: mod_eq_0_iff_dvd)
    then have "(of_nat a :: rat) = 100 * of_nat ?ip + 10 * of_nat ?t"
      using ra by simp
    then have v: "(of_nat a :: rat) / 100 = (of_nat ?ip * 10 + of_nat ?t) / 10"
      by (simp only:) (simp add: field_simps)
    show ?thesis
      unfolding s v
      by (subst decimal_prefix_fraction)
         (simp_all add: digits_all digits_not_Nil digits_val_append digits_val_digits
            length_digits_1 [OF t])
  next
    case 3
    then have s: "String_money (int a) = digits ?ip @ ''.'' @ padStart 2 CHR ''0'' (digits ?fp)"
      by (auto simp: String_money_def Let_def)
    have zero: "is_digit CHR ''0''" "digit_val CHR ''0'' = 0"
      by (simp_all add: is_digit_def digit_val_def)
    have f: "\<forall>c \<in> set (padStart 2 CHR ''0'' (digits ?fp)). is_digit c"
      "length (padStart 2 CHR ''0'' (digits ?fp)) = 2"
      "digits_val (padStart 2 CHR ''0'' (digits ?fp)) = ?fp"
    proof -
      show "\<forall>c \<in> set (padStart 2 CHR ''0'' (digits ?fp)). is_digit c"
        using digits_all [of ?fp] zero by (auto simp: padStart_def)
      show "length (padStart 2 CHR ''0'' (digits ?fp)) = 2"
        by (cases "?fp < 10") (simp_all add: padStart_def length_digits_1 length_digits_2)
      show "digits_val (padStart 2 CHR ''0'' (digits ?fp)) = ?fp"
      proof (cases "?fp < 10")
        case True
        then have "padStart 2 CHR ''0'' (digits ?fp) = [CHR ''0''] @ digits ?fp"
          by (simp add: padStart_def length_digits_1)
        moreover have "digits_val [CHR ''0''] = 0"
          by (simp add: digits_val_def zero)
        ultimately show ?thesis
          by (simp only: digits_val_append digits_val_digits mult_zero_left add_0)
      next
        case False
        then have "padStart 2 CHR ''0'' (digits ?fp) = digits ?fp"
          by (simp add: padStart_def length_digits_2)
        then show ?thesis by (simp add: digits_val_digits)
      qed
    qed
    have ne: "padStart 2 CHR ''0'' (digits ?fp) \<noteq> []"
      using f(2) by auto
    have "decimal_prefix (digits ?ip @ ''.'' @ padStart 2 CHR ''0'' (digits ?fp)) =
        Some (of_nat (digits_val (digits ?ip @ padStart 2 CHR ''0'' (digits ?fp)))
              / 10 ^ length (padStart 2 CHR ''0'' (digits ?fp)))"
      using digits_all f(1) ne by (rule decimal_prefix_fraction)
    also have "\<dots> = Some (of_nat a / 100)"
      by (simp add: f digits_val_append digits_val_digits)
    finally show ?thesis
      unfolding s .
  qed
qed


lemma String_money_head:
  "\<exists>ch s. String_money (int a) = ch # s \<and> is_digit ch"
proof -
  obtain ch ds where d: "digits (a div 100) = ch # ds"
    using digits_not_Nil [of "a div 100"] by (cases "digits (a div 100)") auto
  then have "is_digit ch"
    using digits_all [of "a div 100"] by simp
  with d show ?thesis
    by (simp add: String_money_def Let_def)
qed

lemma String_money_negative: "c < 0 \<Longrightarrow> String_money c = CHR ''-'' # String_money (int (nat (- c)))"
  by (simp add: String_money_def Let_def)

lemma not_white_space:
  assumes "is_digit ch \<or> ch = CHR ''-''"
  shows "strip_one white_space (ch # s) = None"
proof -
  have "CHR 0x09 \<noteq> ch" "CHR 0x0A \<noteq> ch" "CHR 0x0B \<noteq> ch" "CHR 0x0C \<noteq> ch" "CHR 0x0D \<noteq> ch"
    "CHR 0x20 \<noteq> ch" "CHR 0xC2 \<noteq> ch" "CHR 0xE1 \<noteq> ch" "CHR 0xE2 \<noteq> ch" "CHR 0xE3 \<noteq> ch"
    "CHR 0xEF \<noteq> ch"
    using assms by (auto simp: is_digit_def)
  then show ?thesis
    by (simp add: white_space_def)
qed

lemma trim_start_none: "is_digit ch \<or> ch = CHR ''-'' \<Longrightarrow> trim_start (ch # s) = ch # s"
  by (simp add: trim_start_def not_white_space)

lemma unsigned_literal_digit:
  assumes "is_digit ch" "decimal_prefix (ch # s) = Some v"
  shows "unsigned_literal neg (ch # s) = to_double (if neg then - v else v)"
proof -
  have "ch \<noteq> CHR ''I''"
    using assms(1) by (auto simp: is_digit_def)
  with assms(2) show ?thesis
    by (simp add: unsigned_literal_def)
qed

lemma parseFloat_String_money: "parseFloat (String_money c) = to_double (of_int c / 100)"
proof (cases "c < 0")
  case False
  define a where "a = nat c"
  with False have c: "c = int a" by simp
  obtain ch s where s: "String_money (int a) = ch # s" "is_digit ch"
    using String_money_head by blast
  have v: "decimal_prefix (ch # s) = Some (of_nat a / 100)"
    using String_money_value [of a] s(1) by simp
  have sign: "ch \<noteq> CHR ''-''" "ch \<noteq> CHR ''+''"
    using s(2) by (auto simp: is_digit_def)
  have "parseFloat (ch # s) = unsigned_literal False (ch # s)"
    using sign by (simp add: parseFloat_def trim_start_none s(2))
  also have "\<dots> = to_double (of_nat a / 100)"
    using unsigned_literal_digit [OF s(2) v, of False] by simp
  finally show ?thesis
    unfolding c s(1) by simp
next
  case True
  define a where "a = nat (- c)"
  with True have c: "of_int c = - (of_nat a :: rat)"
    by (metis of_int_minus of_int_of_nat_eq nat_0_le neg_le_0_iff_le less_imp_le minus_minus)
  obtain ch s where s: "String_money (int a) = ch # s" "is_digit ch"
    using String_money_head by blast
  have v: "decimal_prefix (ch # s) = Some (of_nat a / 100)"
    using String_money_value [of a] s(1) by simp
  have "parseFloat (CHR ''-'' # ch # s) = unsigned_literal True (ch # s)"
    by (simp add: parseFloat_def trim_start_none)
  also have "\<dots> = to_double (- (of_nat a / 100))"
    using unsigned_literal_digit [OF s(2) v, of True] by simp
  finally show ?thesis
    unfolding String_money_negative [OF True] a_def [symmetric] s(1) c by simp
qed

text \<open>
  Claim C8. For a signed-in user and a non-empty order number: when the ledger has no
  row with that number that the user owns and that is pending (the order is another
  user's, or paid, or failed, or does not exist), the answer is the one answer
  \<open>OrderNotFoundOrPaid\<close> with status 404, the same as for an empty ledger. When the lookup
  yields a row, that row is the user's, pending, and carries the requested number; with
  the configuration present the answer is the link with exactly these entries, in this
  order: the merchant identifier of the configuration, the stored amount as
  \<^verbatim>\<open>String\<close> prints it, the stored name, the notification address under the configured
  base address, the stored order number, the return address, the stored payment type,
  the signature over these seven entries, and the signature type. The amount in the link
  reads back (\<^verbatim>\<open>parseFloat\<close>) as the double of the stored amount, the number the webhook
  will compare the notified amount with.
\<close>

theorem repay_from_stored_order:
  assumes "no \<noteq> []"
  shows
  "(\<not> (\<exists>r \<in> set db. user_id r = uid \<and> out_trade_no r = no \<and> status r = ''pending'') \<longrightarrow>
      POST_repay h cfg (Some uid) db (Some no) = OrderNotFoundOrPaid \<and>
      POST_repay h cfg (Some uid) db (Some no) = POST_repay h cfg (Some uid) [] (Some no) \<and>
      api_status (POST_repay h cfg (Some uid) db (Some no)) = 404)
   \<and> (single (filter (\<lambda>r. out_trade_no r = no \<and> status r = ''pending'') (visible_to uid db)) = Some t \<longrightarrow>
        t \<in> set db \<and> user_id t = uid \<and> status t = ''pending'' \<and> out_trade_no t = no)
   \<and> (single (filter (\<lambda>r. out_trade_no r = no \<and> status r = ''pending'') (visible_to uid db)) = Some t \<and>
       ZPAY_PID cfg = Some pid \<and> pid \<noteq> [] \<and> ZPAY_KEY cfg = Some key \<and> key \<noteq> [] \<and>
       NEXT_PUBLIC_BASE_URL cfg = Some base \<and> base \<noteq> [] \<longrightarrow>
        POST_repay h cfg (Some uid) db (Some no) =
          PayUrl [(''pid'', pid),
                  (''money'', String_money (money t)),
                  (''name'', name t),
                  (''notify_url'', base @ ''/api/checkout/providers/zpay/webhook''),
                  (''out_trade_no'', out_trade_no t),
                  (''return_url'', base @ ''/payment/success''),
                  (''type'', pay_type t),
                  (''sign'',
                   sign_of h
                     [(''pid'', pid),
                      (''money'', String_money (money t)),
                      (''name'', name t),
                      (''notify_url'', base @ ''/api/checkout/providers/zpay/webhook''),
                      (''out_trade_no'', out_trade_no t),
                      (''return_url'', base @ ''/payment/success''),
                      (''type'', pay_type t)] key),
                  (''sign_type'', ''MD5'')] \<and>
        out_trade_no t = no)
   \<and> parseFloat (String_money (money t)) = to_double (of_int (money t) / 100)"
proof (intro conjI impI)
  assume n: "\<not> (\<exists>r \<in> set db. user_id r = uid \<and> out_trade_no r = no \<and> status r = ''pending'')"
  from POST_repay_not_found [OF assms this]
  show a: "POST_repay h cfg (Some uid) db (Some no) = OrderNotFoundOrPaid" .
  from assms have b: "POST_repay h cfg (Some uid) [] (Some no) = OrderNotFoundOrPaid"
    by (simp add: POST_repay_def visible_to_def single_def)
  from a b show "POST_repay h cfg (Some uid) db (Some no) = POST_repay h cfg (Some uid) [] (Some no)"
    by simp
  from a show "api_status (POST_repay h cfg (Some uid) db (Some no)) = 404"
    by simp
next
  assume "single (filter (\<lambda>r. out_trade_no r = no \<and> status r = ''pending'') (visible_to uid db)) = Some t"
  then have "filter (\<lambda>r. out_trade_no r = no \<and> status r = ''pending'') (visible_to uid db) = [t]"
    by (simp add: single_Some_iff)
  then have "t \<in> set (filter (\<lambda>r. out_trade_no r = no \<and> status r = ''pending'') (visible_to uid db))"
    by simp
  then show "t \<in> set db" "user_id t = uid" "status t = ''pending''" "out_trade_no t = no"
    by (simp_all add: visible_to_def)
next
  assume a: "single (filter (\<lambda>r. out_trade_no r = no \<and> status r = ''pending'') (visible_to uid db)) = Some t \<and>
       ZPAY_PID cfg = Some pid \<and> pid \<noteq> [] \<and> ZPAY_KEY cfg = Some key \<and> key \<noteq> [] \<and>
       NEXT_PUBLIC_BASE_URL cfg = Some base \<and> base \<noteq> []"
  then have "filter (\<lambda>r. out_trade_no r = no \<and> status r = ''pending'') (visible_to uid db) = [t]"
    by (simp add: single_Some_iff)
  then have "t \<in> set (filter (\<lambda>r. out_trade_no r = no \<and> status r = ''pending'') (visible_to uid db))"
    by simp
  then show no: "out_trade_no t = no" by simp
  from a assms show "POST_repay h cfg (Some uid) db (Some no) =
          PayUrl [(''pid'', pid),
                  (''money'', String_money (money t)),
                  (''name'', name t),
                  (''notify_url'', base @ ''/api/checkout/providers/zpay/webhook''),
                  (''out_trade_no'', out_trade_no t),
                  (''return_url'', base @ ''/payment/success''),
                  (''type'', pay_type t),
                  (''sign'',
                   sign_of h
                     [(''pid'', pid),
                      (''money'', String_money (money t)),
                      (''name'', name t),
                      (''notify_url'', base @ ''/api/checkout/providers/zpay/webhook''),
                      (''out_trade_no'', out_trade_no t),
                      (''return_url'', base @ ''/payment/success''),
                      (''type'', pay_type t)] key),
                  (''sign_type'', ''MD5'')]"
    by (simp add: POST_repay_def truthy_def payment_url_def pay_params_def notify_url_def
        return_url_def)
next
  show "parseFloat (String_money (money t)) = to_double (of_int (money t) / 100)"
    by (rule parseFloat_String_money)
qed

lemma sample_pid: "ZPAY_PID sample_config = Some ''1001''" "''1001'' \<noteq> []"
  and sample_base: "NEXT_PUBLIC_BASE_URL sample_config = Some ''https://shop.example''"
    "''https://shop.example'' \<noteq> []"
  by (simp_all add: sample_config_def)

lemma second_lookup:
  "single (filter (\<lambda>r. out_trade_no r = ''20250401000000123'' \<and> status r = ''pending'')
     (visible_to ''u1'' second_ledger)) = Some pending_order"
  "single (filter (\<lambda>r. out_trade_no r = ''20250402093015007'' \<and> status r = ''pending'')
     (visible_to ''u1'' second_ledger)) = Some upgrade_order"
  by (simp_all add: single_def visible_to_def second_ledger_def paid_order_def pending_order_def
      upgrade_order_def)

lemma second_not_found:
  "\<not> (\<exists>r \<in> set second_ledger.
        user_id r = ''u2'' \<and> out_trade_no r = ''20250401000000123'' \<and> status r = ''pending'')"
  "\<not> (\<exists>r \<in> set second_ledger.
        user_id r = ''u1'' \<and> out_trade_no r = ''20250315000000456'' \<and> status r = ''pending'')"
  by (simp_all add: second_ledger_def paid_order_def pending_order_def upgrade_order_def)

lemma stored_fields:
  "String_money (money pending_order) = ''9.9''"
  "name pending_order = ''pro-monthly''" "pay_type pending_order = ''alipay''"
  "out_trade_no pending_order = ''20250401000000123''"
  "String_money (money upgrade_order) = ''1200.05''"
  "name upgrade_order = ''team-yearly''" "pay_type upgrade_order = ''wxpay''"
  "out_trade_no upgrade_order = ''20250402093015007''"
  by (simp_all add: String_money_def pending_order_def upgrade_order_def digits.simps padStart_def)

lemma sample_link_sign:
  "sign_of sample_host
     [(''pid'', ''1001''), (''money'', ''9.9''), (''name'', ''pro-monthly''),
      (''notify_url'', ''https://shop.example/api/checkout/providers/zpay/webhook''),
      (''out_trade_no'', ''20250401000000123''),
      (''return_url'', ''https://shop.example/payment/success''), (''type'', ''alipay'')] ''k3y''
   = ''money=9.9&name=pro-monthly&notify_url=https://shop.example/api/checkout/providers/zpay/webhook&out_trade_no=20250401000000123&pid=1001&return_url=https://shop.example/payment/success&type=alipayk3y''"
  by (simp add: sign_of_def sample_host_def getVerifyParams_def sPara_def skipped_def
      array_sort_def byte_compare_def key_value_def)

lemma upgrade_link_sign:
  "sign_of sample_host
     [(''pid'', ''1001''), (''money'', ''1200.05''), (''name'', ''team-yearly''),
      (''notify_url'', ''https://shop.example/api/checkout/providers/zpay/webhook''),
      (''out_trade_no'', ''20250402093015007''),
      (''return_url'', ''https://shop.example/payment/success''), (''type'', ''wxpay'')] ''k3y''
   = ''money=1200.05&name=team-yearly&notify_url=https://shop.example/api/checkout/providers/zpay/webhook&out_trade_no=20250402093015007&pid=1001&return_url=https://shop.example/payment/success&type=wxpayk3y''"
  by (simp add: sign_of_def sample_host_def getVerifyParams_def sPara_def skipped_def
      array_sort_def byte_compare_def key_value_def)

theorem repay_from_stored_order_witness:
  "POST_repay sample_host sample_config (Some ''u2'') second_ledger (Some ''20250401000000123'')
     = OrderNotFoundOrPaid
   \<and> POST_repay sample_host sample_config (Some ''u1'') second_ledger (Some ''20250315000000456'')
     = OrderNotFoundOrPaid
   \<and> POST_repay sample_host sample_config (Some ''u1'') second_ledger (Some ''20250401000000123'')
     = PayUrl [(''pid'', ''1001''), (''money'', ''9.9''), (''name'', ''pro-monthly''),
               (''notify_url'', ''https://shop.example/api/checkout/providers/zpay/webhook''),
               (''out_trade_no'', ''20250401000000123''),
               (''return_url'', ''https://shop.example/payment/success''), (''type'', ''alipay''),
               (''sign'', ''money=9.9&name=pro-monthly&notify_url=https://shop.example/api/checkout/providers/zpay/webhook&out_trade_no=20250401000000123&pid=1001&return_url=https://shop.example/payment/success&type=alipayk3y''),
               (''sign_type'', ''MD5'')]
   \<and> POST_repay sample_host sample_config (Some ''u1'') second_ledger (Some ''20250402093015007'')
     = PayUrl [(''pid'', ''1001''), (''money'', ''1200.05''), (''name'', ''team-yearly''),
               (''notify_url'', ''https://shop.example/api/checkout/providers/zpay/webhook''),
               (''out_trade_no'', ''20250402093015007''),
               (''return_url'', ''https://shop.example/payment/success''), (''type'', ''wxpay''),
               (''sign'', ''money=1200.05&name=team-yearly&notify_url=https://shop.example/api/checkout/providers/zpay/webhook&out_trade_no=20250402093015007&pid=1001&return_url=https://shop.example/payment/success&type=wxpayk3y''),
               (''sign_type'', ''MD5'')]
   \<and> parseFloat ''9.9'' = to_double (99 / 10)"
proof -
  have no: "''20250401000000123'' \<noteq> []" "''20250315000000456'' \<noteq> []"
    "''20250402093015007'' \<noteq> []" by simp_all
  have a: "POST_repay sample_host sample_config (Some ''u2'') second_ledger (Some ''20250401000000123'')
     = OrderNotFoundOrPaid"
    using second_not_found(1)
    by (intro repay_from_stored_order [OF no(1), THEN conjunct1, rule_format, THEN conjunct1])
  have b: "POST_repay sample_host sample_config (Some ''u1'') second_ledger (Some ''20250315000000456'')
     = OrderNotFoundOrPaid"
    using second_not_found(2)
    by (intro repay_from_stored_order [OF no(2), THEN conjunct1, rule_format, THEN conjunct1])
  have app: "''https://shop.example'' @ ''/api/checkout/providers/zpay/webhook''
       = ''https://shop.example/api/checkout/providers/zpay/webhook''"
    "''https://shop.example'' @ ''/payment/success'' = ''https://shop.example/payment/success''"
    by simp_all
  from repay_from_stored_order [OF no(1), THEN conjunct2, THEN conjunct2, THEN conjunct1,
      rule_format, where t = pending_order and uid = "''u1''" and db = second_ledger
        and cfg = sample_config and h = sample_host and pid = "''1001''" and key = "''k3y''"
        and base = "''https://shop.example''", THEN conjunct1]
    second_lookup(1) sample_pid sample_key sample_base
  have c: "POST_repay sample_host sample_config (Some ''u1'') second_ledger (Some ''20250401000000123'')
     = PayUrl [(''pid'', ''1001''), (''money'', ''9.9''), (''name'', ''pro-monthly''),
               (''notify_url'', ''https://shop.example/api/checkout/providers/zpay/webhook''),
               (''out_trade_no'', ''20250401000000123''),
               (''return_url'', ''https://shop.example/payment/success''), (''type'', ''alipay''),
               (''sign'', ''money=9.9&name=pro-monthly&notify_url=https://shop.example/api/checkout/providers/zpay/webhook&out_trade_no=20250401000000123&pid=1001&return_url=https://shop.example/payment/success&type=alipayk3y''),
               (''sign_type'', ''MD5'')]"
    unfolding stored_fields app sample_link_sign by blast
  from repay_from_stored_order [OF no(3), THEN conjunct2, THEN conjunct2, THEN conjunct1,
      rule_format, where t = upgrade_order and uid = "''u1''" and db = second_ledger
        and cfg = sample_config and h = sample_host and pid = "''1001''" and key = "''k3y''"
        and base = "''https://shop.example''", THEN conjunct1]
    second_lookup(2) sample_pid sample_key sample_base
  have d: "POST_repay sample_host sample_config (Some ''u1'') second_ledger (Some ''20250402093015007'')
     = PayUrl [(''pid'', ''1001''), (''money'', ''1200.05''), (''name'', ''team-yearly''),
               (''notify_url'', ''https://shop.example/api/checkout/providers/zpay/webhook''),
               (''out_trade_no'', ''20250402093015007''),
               (''return_url'', ''https://shop.example/payment/success''), (''type'', ''wxpay''),
               (''sign'', ''money=1200.05&name=team-yearly&notify_url=https://shop.example/api/checkout/providers/zpay/webhook&out_trade_no=20250402093015007&pid=1001&return_url=https://shop.example/payment/success&type=wxpayk3y''),
               (''sign_type'', ''MD5'')]"
    unfolding stored_fields app upgrade_link_sign by blast
  have e: "parseFloat ''9.9'' = to_double (99 / 10)"
    using repay_from_stored_order [where t = pending_order, OF no(1), THEN conjunct2,
        THEN conjunct2, THEN conjunct2]
    unfolding stored_fields by (simp add: pending_order_def)
  from a b c d e show ?thesis by (intro conjI)
qed

section \<open>C7: a collision of order numbers\<close>

lemma sample_order_no:
  "generateOrderNo sample_host (issue_now sample_issue) (issue_random sample_issue) = ''20250401000000123''"
  by (simp add: sample_issue_def sample_host_def generateOrderNo_def String_int_def padStart_def
      digits.simps)

lemma numeric_9_90: "numeric_10_2 (Fin (5573204538870989 / 562949953421312)) = Some 990"
  by code_simp

lemma POST_url_valid:
  assumes "auth_user w = Some uid"
    and "payType body = None \<or> payType body = Some ''alipay'' \<or> payType body = Some ''wxpay''"
    and "products (productId body) = Some p"
    and "ZPAY_PID cfg = Some pid" "pid \<noteq> []" "ZPAY_KEY cfg = Some key" "key \<noteq> []"
    and "NEXT_PUBLIC_BASE_URL cfg = Some base" "base \<noteq> []"
    and "numeric_10_2 (parseFloat (price p)) = Some amount"
  shows "POST_url h cfg products w db body =
     (let ptype = (case payType body of None \<Rightarrow> ''alipay'' | Some pt \<Rightarrow> pt);
          no = generateOrderNo h (issue_now w) (issue_random w)
      in if \<exists>r \<in> set db. out_trade_no r = no then (CreateOrderFailed, db)
         else (payment_url h (pay_params pid (price p) (prod_name p) base no ptype) key,
               db @ [pending_row uid (productId body) p no ptype amount (store_now w)]))"
  using assms
  by (auto simp: POST_url_def Let_def truthy_def insert_row_def pending_row_def)

lemma POST_url_collision:
  assumes "\<exists>r \<in> set db. out_trade_no r = generateOrderNo h (issue_now w) (issue_random w)"
  shows "snd (POST_url h cfg products w db body) = db"
    and "fst (POST_url h cfg products w db body) \<noteq> PayUrl es"
  using assms
  by (auto simp: POST_url_def Let_def insert_row_def pending_row_def payment_url_def
      split: option.splits)

text \<open>
  Claim C7 fails on the code: the issuer makes one insert and answers an error when the
  store refuses it. Two requests of user \<open>u1\<close> in the same second draw the same random
  number; the first persists its pending order and returns the link, the second is
  answered with status 500 and persists nothing.
\<close>

theorem issue_collision_counterexample:
  "POST_url sample_host sample_config sample_catalogue sample_issue [] sample_body
     = (payment_url sample_host
          (pay_params ''1001'' ''9.90'' ''pro-monthly'' ''https://shop.example''
             ''20250401000000123'' ''alipay'') ''k3y'',
        [issued_order])
   \<and> POST_url sample_host sample_config sample_catalogue sample_issue [issued_order] sample_body
     = (CreateOrderFailed, [issued_order])
   \<and> api_status CreateOrderFailed = 500"
proof -
  have w: "auth_user sample_issue = Some ''u1''" "issue_now sample_issue = (2025, 3, 1, 0)"
    "issue_random sample_issue = 123" "store_now sample_issue = (2025, 3, 1, 0)"
    by (simp_all add: sample_issue_def)
  have b: "payType sample_body = None \<or> payType sample_body = Some ''alipay''
      \<or> payType sample_body = Some ''wxpay''"
    "sample_catalogue (productId sample_body) =
       Some \<lparr>prod_name = ''pro-monthly'', price = ''9.90'', isSubscription = True,
             subscriptionPeriod = Some ''monthly''\<rparr>"
    by (simp_all add: sample_body_def sample_catalogue_def)
  have n: "numeric_10_2 (parseFloat (price \<lparr>prod_name = ''pro-monthly'', price = ''9.90'',
      isSubscription = True, subscriptionPeriod = Some ''monthly''\<rparr>)) = Some 990"
    by (simp add: parseFloat_9_90 numeric_9_90)
  note eq = POST_url_valid
    [where products = sample_catalogue and body = sample_body and w = sample_issue
       and cfg = sample_config and h = sample_host,
     OF w(1) b sample_pid sample_key sample_base n]
  have first: "POST_url sample_host sample_config sample_catalogue sample_issue [] sample_body
     = (payment_url sample_host
          (pay_params ''1001'' ''9.90'' ''pro-monthly'' ''https://shop.example''
             ''20250401000000123'' ''alipay'') ''k3y'',
        [issued_order])"
    unfolding eq sample_order_no
    by (simp add: Let_def w pending_row_def issued_order_def sample_body_def)
  have second: "POST_url sample_host sample_config sample_catalogue sample_issue [issued_order] sample_body
     = (CreateOrderFailed, [issued_order])"
    unfolding eq sample_order_no
    by (simp add: Let_def issued_order_def sample_body_def)
  from first second show ?thesis by simp
qed

text \<open>
  Claim C7, amended. When a row with the generated order number is already in the ledger,
  the issuer persists nothing and returns no link; for a request that is valid otherwise
  its answer is \<open>CreateOrderFailed\<close>, status 500, and there is no second attempt with
  another number. Without such a row the same request appends exactly one pending row
  with the generated number and returns the signed link. So of two requests that draw
  the same number, the first persists its order and the second fails with an error that
  invites the caller to try again.
\<close>

theorem issue_collision_not_retried:
  "((\<exists>r \<in> set db. out_trade_no r = generateOrderNo h (issue_now w) (issue_random w)) \<longrightarrow>
      snd (POST_url h cfg products w db body) = db \<and>
      (\<forall>es. fst (POST_url h cfg products w db body) \<noteq> PayUrl es))
   \<and> (auth_user w = Some uid \<and>
       (payType body = None \<or> payType body = Some ''alipay'' \<or> payType body = Some ''wxpay'') \<and>
       products (productId body) = Some p \<and>
       ZPAY_PID cfg = Some pid \<and> pid \<noteq> [] \<and> ZPAY_KEY cfg = Some key \<and> key \<noteq> [] \<and>
       NEXT_PUBLIC_BASE_URL cfg = Some base \<and> base \<noteq> [] \<and>
       numeric_10_2 (parseFloat (price p)) = Some amount \<longrightarrow>
        ((\<exists>r \<in> set db. out_trade_no r = generateOrderNo h (issue_now w) (issue_random w)) \<longrightarrow>
           POST_url h cfg products w db body = (CreateOrderFailed, db)) \<and>
        (\<not> (\<exists>r \<in> set db. out_trade_no r = generateOrderNo h (issue_now w) (issue_random w)) \<longrightarrow>
           POST_url h cfg products w db body =
             (payment_url h
                (pay_params pid (price p) (prod_name p) base
                   (generateOrderNo h (issue_now w) (issue_random w))
                   (case payType body of None \<Rightarrow> ''alipay'' | Some pt \<Rightarrow> pt)) key,
              db @ [pending_row uid (productId body) p
                      (generateOrderNo h (issue_now w) (issue_random w))
                      (case payType body of None \<Rightarrow> ''alipay'' | Some pt \<Rightarrow> pt)
                      amount (store_now w)])))"
proof (intro conjI impI allI)
  fix es
  assume c: "\<exists>r \<in> set db. out_trade_no r = generateOrderNo h (issue_now w) (issue_random w)"
  from POST_url_collision [OF c] show "snd (POST_url h cfg products w db body) = db"
    and "fst (POST_url h cfg products w db body) \<noteq> PayUrl es"
    by simp_all
next
  assume v: "auth_user w = Some uid \<and>
       (payType body = None \<or> payType body = Some ''alipay'' \<or> payType body = Some ''wxpay'') \<and>
       products (productId body) = Some p \<and>
       ZPAY_PID cfg = Some pid \<and> pid \<noteq> [] \<and> ZPAY_KEY cfg = Some key \<and> key \<noteq> [] \<and>
       NEXT_PUBLIC_BASE_URL cfg = Some base \<and> base \<noteq> [] \<and>
       numeric_10_2 (parseFloat (price p)) = Some amount"
    and c: "\<exists>r \<in> set db. out_trade_no r = generateOrderNo h (issue_now w) (issue_random w)"
  from v have "POST_url h cfg products w db body =
     (let ptype = (case payType body of None \<Rightarrow> ''alipay'' | Some pt \<Rightarrow> pt);
          no = generateOrderNo h (issue_now w) (issue_random w)
      in if \<exists>r \<in> set db. out_trade_no r = no then (CreateOrderFailed, db)
         else (payment_url h (pay_params pid (price p) (prod_name p) base no ptype) key,
               db @ [pending_row uid (productId body) p no ptype amount (store_now w)]))"
    by (intro POST_url_valid) simp_all
  with c show "POST_url h cfg products w db body = (CreateOrderFailed, db)"
    by (simp add: Let_def)
next
  assume v: "auth_user w = Some uid \<and>
       (payType body = None \<or> payType body = Some ''alipay'' \<or> payType body = Some ''wxpay'') \<and>
       products (productId body) = Some p \<and>
       ZPAY_PID cfg = Some pid \<and> pid \<noteq> [] \<and> ZPAY_KEY cfg = Some key \<and> key \<noteq> [] \<and>
       NEXT_PUBLIC_BASE_URL cfg = Some base \<and> base \<noteq> [] \<and>
       numeric_10_2 (parseFloat (price p)) = Some amount"
    and c: "\<not> (\<exists>r \<in> set db. out_trade_no r = generateOrderNo h (issue_now w) (issue_random w))"
  from v have "POST_url h cfg products w db body =
     (let ptype = (case payType body of None \<Rightarrow> ''alipay'' | Some pt \<Rightarrow> pt);
          no = generateOrderNo h (issue_now w) (issue_random w)
      in if \<exists>r \<in> set db. out_trade_no r = no then (CreateOrderFailed, db)
         else (payment_url h (pay_params pid (price p) (prod_name p) base no ptype) key,
               db @ [pending_row uid (productId body) p no ptype amount (store_now w)]))"
    by (intro POST_url_valid) simp_all
  with c show "POST_url h cfg products w db body =
             (payment_url h
                (pay_params pid (price p) (prod_name p) base
                   (generateOrderNo h (issue_now w) (issue_random w))
                   (case payType body of None \<Rightarrow> ''alipay'' | Some pt \<Rightarrow> pt)) key,
              db @ [pending_row uid (productId body) p
                      (generateOrderNo h (issue_now w) (issue_random w))
                      (case payType body of None \<Rightarrow> ''alipay'' | Some pt \<Rightarrow> pt)
                      amount (store_now w)])"
    by (simp add: Let_def)
qed

theorem issue_collision_not_retried_witness:
  "(\<exists>r \<in> set [issued_order].
      out_trade_no r = generateOrderNo sample_host (issue_now sample_issue) (issue_random sample_issue))
   \<and> snd (POST_url sample_host sample_config sample_catalogue sample_issue [issued_order] sample_body)
       = [issued_order]
   \<and> (\<forall>es. fst (POST_url sample_host sample_config sample_catalogue sample_issue [issued_order]
                sample_body) \<noteq> PayUrl es)"
proof -
  have c: "\<exists>r \<in> set [issued_order].
      out_trade_no r = generateOrderNo sample_host (issue_now sample_issue) (issue_random sample_issue)"
    by (simp add: sample_order_no issued_order_def)
  from issue_collision_not_retried [THEN conjunct1, rule_format, OF c] c
  show ?thesis by blast
qed

section \<open>C2: the subscription window\<close>

lemma sorted_le_last: "sorted xs \<Longrightarrow> y \<in> set xs \<Longrightarrow> y \<le> last xs"
  by (induction xs) auto

lemma sorted_last_Max: "sorted xs \<Longrightarrow> xs \<noteq> [] \<Longrightarrow> last xs = Max (set xs)"
proof -
  assume s: "sorted xs" and n: "xs \<noteq> []"
  have "Max (set xs) = last xs"
  proof (rule Max_eqI)
    show "finite (set xs)" by simp
    show "y \<le> last xs" if "y \<in> set xs" for y
      using s that by (rule sorted_le_last)
    show "last xs \<in> set xs" using n by simp
  qed
  then show ?thesis by simp
qed

lemma take_1_rev: "ys \<noteq> [] \<Longrightarrow> take 1 (rev ys) = [last ys]"
  by (cases ys rule: rev_cases) simp_all

lemma latest_first: "xs \<noteq> [] \<Longrightarrow> take 1 (rev (sort xs)) = [Max (set xs)]"
proof -
  assume "xs \<noteq> []"
  then have ne: "sort xs \<noteq> []"
    by (metis length_0_conv length_sort)
  have "last (sort xs) = Max (set xs)"
    using sorted_last_Max [OF sorted_sort ne] by simp
  with take_1_rev [OF ne] show ?thesis by simp
qed

lemma startDate_latest:
  "startDate w db uid =
     (if subs_error w \<or> active_end_dates w db uid = [] then now_start w
      else Max (set (active_end_dates w db uid)))"
  by (simp add: startDate_def existingSubscriptions_def latest_first [unfolded One_nat_def])

lemma set_active_end_dates:
  "set (active_end_dates w db uid) =
     {e. \<exists>r \<in> set db. user_id r = uid \<and> is_subscription r \<and> status r = ''paid'' \<and>
           subscription_end_date r = Some e \<and> now_query w < e}"
  by (auto simp: active_end_dates_def split: option.splits if_splits)

lemma roll_days_fits: "d \<le> DaysInMonth y m \<Longrightarrow> roll_days y m d = (y, m, d)"
  by (simp add: roll_days.simps)

lemma DaysInMonth_bounds: "28 \<le> DaysInMonth y m" "DaysInMonth y m \<le> 31"
  by (simp_all add: DaysInMonth_def)

text \<open>One step of \<open>roll_days\<close> suffices for a day of the month that exists in some month:
  the days left over are at most three.\<close>

lemma roll_days_over:
  assumes "m < 11" "DaysInMonth y m < d" "d \<le> 31"
  shows "roll_days y m d = (y, m + 1, d - DaysInMonth y m)"
proof -
  have "d - DaysInMonth y m \<le> DaysInMonth y (m + 1)"
    using assms(3) DaysInMonth_bounds(1) [of y m] DaysInMonth_bounds(1) [of y "m + 1"] by linarith
  then have "roll_days y (m + 1) (d - DaysInMonth y m) = (y, m + 1, d - DaysInMonth y m)"
    by (rule roll_days_fits)
  with assms(1,2) show ?thesis
    by (subst roll_days.simps) simp
qed

lemma MakeDay_next_month:
  assumes "m < 12" "d \<le> DaysInMonth y m"
  shows "MakeDay y (m + 1) d =
     (if m = 11 then (y + 1, 0, d)
      else if d \<le> DaysInMonth y (m + 1) then (y, m + 1, d)
      else (y, m + 2, d - DaysInMonth y (m + 1)))"
proof (cases "m = 11")
  case True
  have "d \<le> DaysInMonth (y + 1) 0"
    using assms(2) DaysInMonth_bounds(2) [of y m] by (simp add: DaysInMonth_def)
  with True show ?thesis
    by (simp add: MakeDay_def roll_days_fits)
next
  case False
  with assms(1) have m: "m + 1 < 12" "(m + 1) div 12 = 0" "(m + 1) mod 12 = m + 1"
    by simp_all
  show ?thesis
  proof (cases "d \<le> DaysInMonth y (m + 1)")
    case True
    with False m show ?thesis
      by (simp add: MakeDay_def roll_days_fits)
  next
    case over: False
    then have "DaysInMonth y (m + 1) < 31"
      using assms(2) DaysInMonth_bounds(2) [of y m] by linarith
    then have "m + 1 < 11"
      using m(1) by (cases "m + 1 = 11") (simp_all add: DaysInMonth_def)
    moreover have "d \<le> 31"
      using assms(2) DaysInMonth_bounds(2) [of y m] by linarith
    ultimately have "roll_days y (m + 1) d = (y, m + 1 + 1, d - DaysInMonth y (m + 1))"
      using over by (intro roll_days_over) simp_all
    with False over m show ?thesis
      by (simp add: MakeDay_def)
  qed
qed

lemma MakeDay_next_year:
  assumes "m < 12" "d \<le> DaysInMonth y m"
  shows "MakeDay (y + 1) m d =
     (if d \<le> DaysInMonth (y + 1) m then (y + 1, m, d) else (y + 1, 2, 1))"
proof (cases "d \<le> DaysInMonth (y + 1) m")
  case True
  with assms(1) show ?thesis
    by (simp add: MakeDay_def roll_days_fits)
next
  case False
  with assms(2) have less: "DaysInMonth (y + 1) m < DaysInMonth y m"
    by linarith
  then have m: "m = 1"
    by (auto simp: DaysInMonth_def split: if_splits)
  with less have dim: "DaysInMonth y 1 = 29" "DaysInMonth (y + 1) 1 = 28"
    by (auto simp: DaysInMonth_def split: if_splits)
  with False assms(2) m have d: "d = 29"
    by simp
  have "roll_days (y + 1) 1 29 = (y + 1, 1 + 1, 29 - DaysInMonth (y + 1) 1)"
    using dim(2) by (intro roll_days_over) simp_all
  with False m d dim show ?thesis
    by (simp add: MakeDay_def)
qed

lemma setMonth_next_valid:
  assumes "LocalTime h S = (y, m, d, ms)" "valid_date (y, m, d, ms)"
  shows "setMonth_next h S =
     UTC h (if m = 11 then (y + 1, 0, d, ms)
            else if d \<le> DaysInMonth y (m + 1) then (y, m + 1, d, ms)
            else (y, m + 2, d - DaysInMonth y (m + 1), ms))"
proof -
  from assms(2) have "m < 12" "d \<le> DaysInMonth y m"
    by (simp_all add: valid_date_def)
  from MakeDay_next_month [OF this] assms(1) show ?thesis
    by (simp add: setMonth_next_def)
qed

lemma setFullYear_next_valid:
  assumes "LocalTime h S = (y, m, d, ms)" "valid_date (y, m, d, ms)"
  shows "setFullYear_next h S =
     UTC h (if d \<le> DaysInMonth (y + 1) m then (y + 1, m, d, ms) else (y + 1, 2, 1, ms))"
proof -
  from assms(2) have "m < 12" "d \<le> DaysInMonth y m"
    by (simp_all add: valid_date_def)
  from MakeDay_next_year [OF this] assms(1) show ?thesis
    by (simp add: setFullYear_next_def)
qed

lemma updateData_subscription:
  assumes "is_subscription t" "subscription_period t = Some period" "period \<noteq> []"
  shows "ud_subscription_start_date (updateData h w db t q) = Some (startDate w db (user_id t))"
    and "ud_subscription_end_date (updateData h w db t q)
           = Some (endDate h period (startDate w db (user_id t)))"
  using assms by (simp_all add: updateData_def Let_def)


text \<open>
  Claim C2 fails on the code in a run whose subscription query the store answers with an
  error. The order lookup and the update check the error of their statements; of the
  subscription query the handler reads \<^verbatim>\<open>data\<close> only, takes the missing result for "no
  unexpired window", and goes on: the order is paid and acknowledged with a window that
  starts now, although the user holds a paid subscription that has not run out.

  In full: let a verified success notification pass the checks with the subscription
  order \<open>t\<close>, and let the update succeed. The run answers \<open>success\<close>, and every row that the
  conditional update changes becomes paid and, in the same write, receives the start
  date \<open>S\<close> and the end date \<open>E\<close>. When the subscription query succeeds, \<open>S\<close> is the latest end
  date among the paid subscription rows of the order's user that end strictly after the
  clock reading of the query, and the clock reading \<open>now_start\<close> when there is none; when
  the query fails, \<open>S\<close> is \<open>now_start\<close> whatever the ledger holds. \<open>E\<close> is \<open>S\<close> after
  \<^verbatim>\<open>setMonth(getMonth() + 1)\<close> for a monthly and after \<^verbatim>\<open>setFullYear(getFullYear() + 1)\<close>
  for a yearly period, both in the local time of the host: with \<open>y\<close>, \<open>m\<close>, \<open>d\<close> the year,
  month and day that the host's zone shows at \<open>S\<close>, the monthly \<open>E\<close> is the instant at which
  the zone shows the same time of day on day \<open>d\<close> of the following month (January of
  \<open>y + 1\<close> after December), and, when that month is shorter than \<open>d\<close> days, on the day of
  the month after it that lies as many days on as \<open>d\<close> exceeds the shorter month; the
  yearly \<open>E\<close> is the instant of the same day and time of year \<open>y + 1\<close>, and of 1 March when
  \<open>S\<close> is a 29 February. In no run does a row get other subscription dates without
  becoming paid in that run from pending.
\<close>

theorem subscription_window:
  assumes "webhook_checks h cfg w dbr q = Inr t"
    and "is_subscription t" "subscription_period t = Some period" "period \<noteq> []"
    and "\<not> update_error w"
  shows
  "fst (GET_at h cfg w dbr dbs dbw q) = Success
   \<and> (\<forall>i < length dbw. still_pending (field q ''out_trade_no'') (dbw ! i) \<longrightarrow>
      status (snd (GET_at h cfg w dbr dbs dbw q) ! i) = ''paid'' \<and>
      subscription_start_date (snd (GET_at h cfg w dbr dbs dbw q) ! i) =
        Some (if subs_error w \<or> active_end_dates w dbs (user_id t) = [] then now_start w
              else Max (set (active_end_dates w dbs (user_id t)))) \<and>
      subscription_end_date (snd (GET_at h cfg w dbr dbs dbw q) ! i) =
        Some (let S = (if subs_error w \<or> active_end_dates w dbs (user_id t) = [] then now_start w
                       else Max (set (active_end_dates w dbs (user_id t))))
              in if period = ''monthly'' then setMonth_next h S
                 else if period = ''yearly'' then setFullYear_next h S else S))
   \<and> set (active_end_dates w dbs (user_id t)) =
        {e. \<exists>r \<in> set dbs. user_id r = user_id t \<and> is_subscription r \<and> status r = ''paid'' \<and>
              subscription_end_date r = Some e \<and> now_query w < e}
   \<and> (\<forall>S y m d ms. LocalTime h S = (y, m, d, ms) \<and> valid_date (y, m, d, ms) \<longrightarrow>
        setMonth_next h S =
          UTC h (if m = 11 then (y + 1, 0, d, ms)
                 else if d \<le> DaysInMonth y (m + 1) then (y, m + 1, d, ms)
                 else (y, m + 2, d - DaysInMonth y (m + 1), ms)))
   \<and> (\<forall>S y m d ms. LocalTime h S = (y, m, d, ms) \<and> valid_date (y, m, d, ms) \<longrightarrow>
        setFullYear_next h S =
          UTC h (if d \<le> DaysInMonth (y + 1) m then (y + 1, m, d, ms) else (y + 1, 2, 1, ms)))
   \<and> (\<forall>h' cfg' w' dbr' dbs' q' i. i < length dbw \<and>
        (subscription_start_date (snd (GET_at h' cfg' w' dbr' dbs' dbw q') ! i)
           \<noteq> subscription_start_date (dbw ! i) \<or>
         subscription_end_date (snd (GET_at h' cfg' w' dbr' dbs' dbw q') ! i)
           \<noteq> subscription_end_date (dbw ! i)) \<longrightarrow>
        status (dbw ! i) = ''pending'' \<and>
        status (snd (GET_at h' cfg' w' dbr' dbs' dbw q') ! i) = ''paid'')"
proof (intro conjI allI impI)
  let ?no = "field q ''out_trade_no''"
  let ?u = "updateData h w dbs t q"
  let ?S = "if subs_error w \<or> active_end_dates w dbs (user_id t) = [] then now_start w
            else Max (set (active_end_dates w dbs (user_id t)))"
  have run: "GET_at h cfg w dbr dbs dbw q = (Success, snd (conditional_update dbw ?no ?u))"
    using assms(1,5) by (simp add: GET_at_def webhook_write_def split: prod.splits)
  then show "fst (GET_at h cfg w dbr dbs dbw q) = Success"
    by simp
  fix i assume i: "i < length dbw" and p: "still_pending ?no (dbw ! i)"
  have row: "snd (GET_at h cfg w dbr dbs dbw q) ! i = apply_update ?u (dbw ! i)"
    using run i p by (simp add: conditional_update_nth)
  have S: "startDate w dbs (user_id t) = ?S"
    by (rule startDate_latest)
  show "status (snd (GET_at h cfg w dbr dbs dbw q) ! i) = ''paid''"
    unfolding row by (simp add: apply_update_def updateData_status)
  show "subscription_start_date (snd (GET_at h cfg w dbr dbs dbw q) ! i) = Some ?S"
    unfolding row using updateData_subscription(1) [OF assms(2-4), of h w dbs q] S
    by (simp add: apply_update_def)
  show "subscription_end_date (snd (GET_at h cfg w dbr dbs dbw q) ! i) =
        Some (let S = ?S
              in if period = ''monthly'' then setMonth_next h S
                 else if period = ''yearly'' then setFullYear_next h S else S)"
    unfolding row using updateData_subscription(2) [OF assms(2-4), of h w dbs q] S
    by (simp add: apply_update_def endDate_def Let_def)
next
  show "set (active_end_dates w dbs (user_id t)) =
        {e. \<exists>r \<in> set dbs. user_id r = user_id t \<and> is_subscription r \<and> status r = ''paid'' \<and>
              subscription_end_date r = Some e \<and> now_query w < e}"
    by (rule set_active_end_dates)
next
  fix S :: date and y :: int and m d ms :: nat
  assume "LocalTime h S = (y, m, d, ms) \<and> valid_date (y, m, d, ms)"
  then show "setMonth_next h S =
          UTC h (if m = 11 then (y + 1, 0, d, ms)
                 else if d \<le> DaysInMonth y (m + 1) then (y, m + 1, d, ms)
                 else (y, m + 2, d - DaysInMonth y (m + 1), ms))"
    by (intro setMonth_next_valid) simp_all
next
  fix S :: date and y :: int and m d ms :: nat
  assume "LocalTime h S = (y, m, d, ms) \<and> valid_date (y, m, d, ms)"
  then show "setFullYear_next h S =
          UTC h (if d \<le> DaysInMonth (y + 1) m then (y + 1, m, d, ms) else (y + 1, 2, 1, ms))"
    by (intro setFullYear_next_valid) simp_all
next
  fix h' cfg' w' dbr' dbs' q' i
  assume a: "i < length dbw \<and>
        (subscription_start_date (snd (GET_at h' cfg' w' dbr' dbs' dbw q') ! i)
           \<noteq> subscription_start_date (dbw ! i) \<or>
         subscription_end_date (snd (GET_at h' cfg' w' dbr' dbs' dbw q') ! i)
           \<noteq> subscription_end_date (dbw ! i))"
  then have d: "snd (GET_at h' cfg' w' dbr' dbs' dbw q') ! i \<noteq> dbw ! i" by auto
  from a have i: "i < length dbw" by simp
  from GET_at_changed [OF i d]
  show "status (dbw ! i) = ''pending''"
    and "status (snd (GET_at h' cfg' w' dbr' dbs' dbw q') ! i) = ''paid''"
    by (simp_all add: still_pending_def)
qed


text \<open>
  The examples. On 1 April 2025 user \<open>u1\<close> holds a paid subscription that ends on 15 April.
  In the run whose subscription query fails, the pending order is paid with the window
  1 April to 1 May; with a working query the window is 15 April to 15 May. On a host in
  UTC a month from 31 January ends on 3 March (2 March in a leap year), a month from
  31 December on 31 January, and a year from 29 February 2024 on 1 March 2025. On the
  host in New York a month from 9 February 02:30 local time would end at 02:30 on
  9 March, which that day skips: it ends at 03:30 local time (07:30 UTC); a month from
  20 February 12:00 local time (17:00 UTC) ends on 20 March 12:00 local time, which is
  16:00 UTC.
\<close>

lemma sample_active_end_dates:
  "active_end_dates sample_world sample_ledger (user_id pending_order) = [(2025, 3, 15, 0)]"
  "active_end_dates outage_world sample_ledger (user_id pending_order) = [(2025, 3, 15, 0)]"
  by (simp_all add: active_end_dates_def outage_world_def sample_world_def sample_ledger_def
      paid_order_def pending_order_def)

lemma sample_setMonth:
  "setMonth_next sample_host (2025, 3, 15, 0) = (2025, 4, 15, 0)"
  "setMonth_next sample_host (now_start outage_world) = (2025, 4, 1, 0)"
  by (simp_all add: setMonth_next_def sample_host_def outage_world_def sample_world_def
      MakeDay_def roll_days.simps DaysInMonth_def)

lemma outage_checks:
  "webhook_checks sample_host sample_config outage_world sample_ledger sample_notify
     = Inr pending_order"
  by (simp add: webhook_checks_def sample_sign sample_field_values money_9_90 single_def
      sample_config_def outage_world_def sample_world_def sample_ledger_def paid_order_def
      pending_order_def)

lemma outage_errors: "subs_error outage_world" "\<not> update_error outage_world"
  and outage_clock: "now_start outage_world = (2025, 3, 1, 0)"
    "now_query outage_world = (2025, 3, 1, 0)"
  by (simp_all add: outage_world_def sample_world_def)

lemma outage_GET:
  "GET sample_host sample_config outage_world sample_ledger sample_notify
     = (Success, [paid_order, restarted_order])"
proof -
  have u: "updateData sample_host outage_world sample_ledger pending_order sample_notify =
     \<lparr>ud_status = ''paid'', ud_trade_no = ''T77'', ud_updated_at = (2025, 3, 1, 0),
      ud_subscription_start_date = Some (now_start outage_world),
      ud_subscription_end_date = Some (2025, 4, 1, 0)\<rparr>"
  proof -
    have "now_updated outage_world = (2025, 3, 1, 0)"
      by (simp add: outage_world_def sample_world_def)
    moreover have "startDate outage_world sample_ledger ''u1'' = now_start outage_world"
      by (simp add: startDate_def existingSubscriptions_def outage_errors)
    ultimately show ?thesis
      by (simp add: updateData_def Let_def pending_order_def sample_field_values endDate_def
          sample_setMonth)
  qed
  show ?thesis
    by (simp add: GET_def GET_at_def outage_checks webhook_write_def outage_errors u
        conditional_update_def sample_field_values still_pending_def)
       (simp add: sample_ledger_def paid_order_def pending_order_def restarted_order_def
        apply_update_def outage_clock)
qed

lemma eastern_local:
  "LocalTime eastern_host (2025, 1, 9, 27000000) = (2025, 1, 9, 9000000)"
  "LocalTime eastern_host (2025, 2, 9, 27000000) = (2025, 2, 9, 12600000)"
  "LocalTime eastern_host (2025, 3, 15, 0) = (2025, 3, 14, 72000000)"
  "LocalTime eastern_host (2025, 4, 15, 0) = (2025, 4, 14, 72000000)"
  "LocalTime eastern_host (2025, 1, 20, 61200000) = (2025, 1, 20, 43200000)"
  "LocalTime eastern_host (2025, 2, 20, 57600000) = (2025, 2, 20, 43200000)"
  by (simp_all add: eastern_host_def earlier_def prev_day_def DaysInMonth_def)

lemma eastern_UTC:
  "UTC eastern_host (2025, 2, 9, 9000000) = (2025, 2, 9, 27000000)"
  "UTC eastern_host (2025, 4, 14, 72000000) = (2025, 4, 15, 0)"
  "UTC eastern_host (2025, 2, 20, 43200000) = (2025, 2, 20, 57600000)"
  by (simp_all add: eastern_host_def later_def MakeDay_def roll_days.simps DaysInMonth_def)

lemma eastern_checks:
  "webhook_checks eastern_host sample_config sample_world sample_ledger sample_notify
     = Inr pending_order"
proof -
  have s: "sign_of eastern_host ps key = sign_of sample_host ps key" for ps key
    by (simp add: sign_of_def eastern_host_def sample_host_def)
  have "webhook_checks eastern_host sample_config sample_world sample_ledger sample_notify
     = webhook_checks sample_host sample_config sample_world sample_ledger sample_notify"
    unfolding webhook_checks_def s by (rule refl)
  then show ?thesis
    by (simp only: sample_checks)
qed

theorem subscription_window_witness:
  "subs_error outage_world
   \<and> user_id paid_order = user_id pending_order \<and> is_subscription paid_order
   \<and> status paid_order = ''paid''
   \<and> subscription_end_date paid_order = Some (2025, 3, 15, 0)
   \<and> now_query outage_world = (2025, 3, 1, 0) \<and> now_query outage_world < (2025, 3, 15, 0)
   \<and> GET sample_host sample_config outage_world sample_ledger sample_notify
       = (Success, [paid_order, restarted_order])
   \<and> status (snd (GET sample_host sample_config outage_world sample_ledger sample_notify) ! 1)
       = ''paid''
   \<and> subscription_start_date
        (snd (GET sample_host sample_config outage_world sample_ledger sample_notify) ! 1)
       = Some (2025, 3, 1, 0)
   \<and> subscription_end_date
        (snd (GET sample_host sample_config outage_world sample_ledger sample_notify) ! 1)
       = Some (2025, 4, 1, 0)
   \<and> subscription_start_date
        (snd (GET sample_host sample_config sample_world sample_ledger sample_notify) ! 1)
       = Some (2025, 3, 15, 0)
   \<and> subscription_end_date
        (snd (GET sample_host sample_config sample_world sample_ledger sample_notify) ! 1)
       = Some (2025, 4, 15, 0)
   \<and> setMonth_next sample_host (2025, 0, 31, 0) = (2025, 2, 3, 0)
   \<and> setMonth_next sample_host (2024, 0, 31, 0) = (2024, 2, 2, 0)
   \<and> setMonth_next sample_host (2025, 11, 31, 0) = (2026, 0, 31, 0)
   \<and> setFullYear_next sample_host (2024, 1, 29, 0) = (2025, 2, 1, 0)
   \<and> setFullYear_next sample_host (2025, 3, 15, 0) = (2026, 3, 15, 0)
   \<and> LocalTime eastern_host (2025, 1, 9, 27000000) = (2025, 1, 9, 9000000)
   \<and> setMonth_next eastern_host (2025, 1, 9, 27000000) = (2025, 2, 9, 27000000)
   \<and> LocalTime eastern_host (2025, 2, 9, 27000000) = (2025, 2, 9, 12600000)
   \<and> setMonth_next eastern_host (2025, 1, 20, 61200000) = (2025, 2, 20, 57600000)
   \<and> setMonth_next eastern_host (2025, 3, 15, 0) = (2025, 4, 15, 0)"
proof -
  have sub: "is_subscription pending_order" "subscription_period pending_order = Some ''monthly''"
    "''monthly'' \<noteq> []"
    by (simp_all add: pending_order_def)
  have i: "(1::nat) < length sample_ledger"
    by (simp add: sample_ledger_def)
  have p: "still_pending (field sample_notify ''out_trade_no'') (sample_ledger ! 1)"
    by (simp add: sample_field_values still_pending_def sample_ledger_def pending_order_def)
  note out = subscription_window [OF outage_checks sub outage_errors(2),
      where dbs = sample_ledger and dbw = sample_ledger]
  note ok = subscription_window [OF sample_checks sub sample_no_errors(3),
      where dbs = sample_ledger and dbw = sample_ledger]
  note out_row = out [THEN conjunct2, THEN conjunct1, rule_format, OF i p, folded GET_def]
  note ok_row = ok [THEN conjunct2, THEN conjunct1, rule_format, OF i p, folded GET_def]
  note month = ok [THEN conjunct2, THEN conjunct2, THEN conjunct2, THEN conjunct1, rule_format]
  note year = ok [THEN conjunct2, THEN conjunct2, THEN conjunct2, THEN conjunct2, THEN conjunct1,
      rule_format]
  have a: "user_id paid_order = user_id pending_order" "is_subscription paid_order"
    "status paid_order = ''paid''" "subscription_end_date paid_order = Some (2025, 3, 15, 0)"
    by (simp_all add: paid_order_def pending_order_def)
  have b: "now_query outage_world < (2025, 3, 15, 0)"
    by (simp add: outage_clock)
  have c: "status (snd (GET sample_host sample_config outage_world sample_ledger sample_notify) ! 1)
       = ''paid''"
    "subscription_start_date
        (snd (GET sample_host sample_config outage_world sample_ledger sample_notify) ! 1)
       = Some (2025, 3, 1, 0)"
    "subscription_end_date
        (snd (GET sample_host sample_config outage_world sample_ledger sample_notify) ! 1)
       = Some (2025, 4, 1, 0)"
    using out_row by (simp_all add: outage_errors sample_setMonth) (simp add: outage_clock)
  have d: "subscription_start_date
        (snd (GET sample_host sample_config sample_world sample_ledger sample_notify) ! 1)
       = Some (2025, 3, 15, 0)"
    "subscription_end_date
        (snd (GET sample_host sample_config sample_world sample_ledger sample_notify) ! 1)
       = Some (2025, 4, 15, 0)"
    using ok_row unfolding sample_active_end_dates
    by (simp_all add: sample_no_errors sample_setMonth)
  have local: "LocalTime sample_host S = S" "UTC sample_host S = S" for S
    by (simp_all add: sample_host_def)
  have e: "setMonth_next sample_host (2025, 0, 31, 0) = (2025, 2, 3, 0)"
    "setMonth_next sample_host (2024, 0, 31, 0) = (2024, 2, 2, 0)"
    "setMonth_next sample_host (2025, 11, 31, 0) = (2026, 0, 31, 0)"
    by (subst month [where y = 2025 and m = 0 and d = 31 and ms = 0],
        simp add: local valid_date_def DaysInMonth_def leap_year_def,
        simp add: local DaysInMonth_def leap_year_def)
       (subst month [where y = 2024 and m = 0 and d = 31 and ms = 0],
        simp add: local valid_date_def DaysInMonth_def leap_year_def,
        simp add: local DaysInMonth_def leap_year_def,
        subst month [where y = 2025 and m = 11 and d = 31 and ms = 0],
        simp add: local valid_date_def DaysInMonth_def leap_year_def,
        simp add: local DaysInMonth_def leap_year_def)
  have f: "setFullYear_next sample_host (2024, 1, 29, 0) = (2025, 2, 1, 0)"
    "setFullYear_next sample_host (2025, 3, 15, 0) = (2026, 3, 15, 0)"
    by (subst year [where y = 2024 and m = 1 and d = 29 and ms = 0],
        simp add: local valid_date_def DaysInMonth_def leap_year_def,
        simp add: local DaysInMonth_def leap_year_def)
       (subst year [where y = 2025 and m = 3 and d = 15 and ms = 0],
        simp add: local valid_date_def DaysInMonth_def leap_year_def,
        simp add: local DaysInMonth_def leap_year_def)
  note east = subscription_window [OF eastern_checks sub sample_no_errors(3),
      where dbs = sample_ledger and dbw = sample_ledger,
      THEN conjunct2, THEN conjunct2, THEN conjunct2, THEN conjunct1, rule_format]
  have g1: "setMonth_next eastern_host (2025, 1, 9, 27000000) = (2025, 2, 9, 27000000)"
  proof -
    have "LocalTime eastern_host (2025, 1, 9, 27000000) = (2025, 1, 9, 9000000) \<and> valid_date (2025, 1, 9, 9000000)"
      using eastern_local by (simp add: valid_date_def DaysInMonth_def leap_year_def)
    from east [OF this]
    have "setMonth_next eastern_host (2025, 1, 9, 27000000) = UTC eastern_host (2025, 2, 9, 9000000)"
      by (simp add: DaysInMonth_def leap_year_def numeral_2_eq_2)
    then show ?thesis
      by (simp only: eastern_UTC)
  qed
  have g2: "setMonth_next eastern_host (2025, 1, 20, 61200000) = (2025, 2, 20, 57600000)"
  proof -
    have "LocalTime eastern_host (2025, 1, 20, 61200000) = (2025, 1, 20, 43200000) \<and> valid_date (2025, 1, 20, 43200000)"
      using eastern_local by (simp add: valid_date_def DaysInMonth_def leap_year_def)
    from east [OF this]
    have "setMonth_next eastern_host (2025, 1, 20, 61200000) = UTC eastern_host (2025, 2, 20, 43200000)"
      by (simp add: DaysInMonth_def leap_year_def numeral_2_eq_2)
    then show ?thesis
      by (simp only: eastern_UTC)
  qed
  have g3: "setMonth_next eastern_host (2025, 3, 15, 0) = (2025, 4, 15, 0)"
  proof -
    have "LocalTime eastern_host (2025, 3, 15, 0) = (2025, 3, 14, 72000000) \<and> valid_date (2025, 3, 14, 72000000)"
      using eastern_local by (simp add: valid_date_def DaysInMonth_def leap_year_def)
    from east [OF this]
    have "setMonth_next eastern_host (2025, 3, 15, 0) = UTC eastern_host (2025, 4, 14, 72000000)"
      by (simp add: DaysInMonth_def leap_year_def numeral_2_eq_2)
    then show ?thesis
      by (simp only: eastern_UTC)
  qed
  from outage_errors(1) a outage_clock(2) b outage_GET c d e f eastern_local(1) g1
    eastern_local(2) g2 g3
  show ?thesis
    by (intro conjI)
qed

section \<open>C3 and C9: the order of the keys\<close>

text \<open>Under the comparison by code units the function is the recipe of the
  specification.\<close>

lemma insort_cmp_byte:
  "insort_cmp (\<lambda>a b. byte_compare (fst a) (fst b)) x ys = insort_key fst x ys"
  by (induction ys) (auto simp: byte_compare_def)

lemma array_sort_byte: "array_sort (\<lambda>a b. byte_compare (fst a) (fst b)) xs = sort_key fst xs"
  by (induction xs) (simp_all add: array_sort_def sort_key_def insort_cmp_byte)

lemma getVerifyParams_byte_compare: "getVerifyParams byte_compare ps = canonical_bytewise ps"
proof -
  have "sPara ps = filter (\<lambda>e. fst e \<noteq> ''sign'' \<and> fst e \<noteq> ''sign_type'' \<and> snd e \<noteq> []) ps"
    unfolding sPara_def skipped_def by (rule filter_cong) auto
  then show ?thesis
    by (simp add: getVerifyParams_def canonical_bytewise_def array_sort_byte)
qed

text \<open>Whatever the comparison, an entry that the loop skips does not reach the signing
  string: a \<^verbatim>\<open>sign\<close> entry, a \<^verbatim>\<open>sign_type\<close> entry or an entry with an empty value can be
  added anywhere.\<close>

lemma getVerifyParams_skipped:
  "skipped e \<Longrightarrow> getVerifyParams lc (xs @ e # ys) = getVerifyParams lc (xs @ ys)"
  by (simp add: getVerifyParams_def sPara_def)

lemma skipped_entries:
  "skipped (''sign'', v)" "skipped (''sign_type'', v)" "skipped (k, [])"
  by (simp_all add: skipped_def)

text \<open>
  Claim C3 fails on the code. The comment above \<^verbatim>\<open>getVerifyParams\<close> and the specification
  ask for the keys in the order of their character codes; the function sorts with
  \<^verbatim>\<open>localeCompare\<close>. For the mapping \<^verbatim>\<open>{B: "1", a: "2"}\<close> any comparison that puts \<open>a\<close>
  before \<open>B\<close>, as locale collations do, gives \<^verbatim>\<open>a=2&B=1\<close>, where the byte-wise recipe
  gives \<^verbatim>\<open>B=1&a=2\<close>.
\<close>

theorem getVerifyParams_locale_order:
  "0 < lc ''B'' ''a'' \<Longrightarrow>
   getVerifyParams lc [(''B'', ''1''), (''a'', ''2'')] = ''a=2&B=1'' \<and>
   canonical_bytewise [(''B'', ''1''), (''a'', ''2'')] = ''B=1&a=2'' \<and>
   getVerifyParams lc [(''B'', ''1''), (''a'', ''2'')]
     \<noteq> canonical_bytewise [(''B'', ''1''), (''a'', ''2'')]"
  by (simp add: getVerifyParams_def canonical_bytewise_def sPara_def skipped_def array_sort_def
      key_value_def)

theorem getVerifyParams_locale_order_witness:
  "0 < caseless_compare ''B'' ''a'' \<and>
   getVerifyParams caseless_compare [(''B'', ''1''), (''a'', ''2'')] = ''a=2&B=1'' \<and>
   canonical_bytewise [(''B'', ''1''), (''a'', ''2'')] = ''B=1&a=2''"
proof -
  have c: "0 < caseless_compare ''B'' ''a''"
    by (simp add: caseless_compare_def lower_char_def byte_compare_def)
  from getVerifyParams_locale_order [where lc = caseless_compare, OF c] c show ?thesis by simp
qed

text \<open>
  Claim C9 fails on the code, for the same reason. The sort is stable, so two keys that
  the comparison reports as equal stay in the order of their insertion, and the signing
  string follows that order. \<^verbatim>\<open>localeCompare\<close> reports distinct keys as equal when they
  are canonically equivalent.
\<close>

theorem getVerifyParams_insertion_order:
  "lc k1 k2 = 0 \<Longrightarrow> lc k2 k1 = 0 \<Longrightarrow> \<not> skipped (k1, v1) \<Longrightarrow> \<not> skipped (k2, v2) \<Longrightarrow>
   getVerifyParams lc [(k1, v1), (k2, v2)] = k1 @ ''='' @ v1 @ ''&'' @ k2 @ ''='' @ v2 \<and>
   getVerifyParams lc [(k2, v2), (k1, v1)] = k2 @ ''='' @ v2 @ ''&'' @ k1 @ ''='' @ v1"
  by (simp add: getVerifyParams_def sPara_def array_sort_def key_value_def)

theorem getVerifyParams_insertion_order_witness:
  "[CHR 0xC3, CHR 0xA9] \<noteq> [CHR 0x65, CHR 0xCC, CHR 0x81] \<and>
   canonical_compare [CHR 0xC3, CHR 0xA9] [CHR 0x65, CHR 0xCC, CHR 0x81] = 0 \<and>
   getVerifyParams canonical_compare
     [([CHR 0xC3, CHR 0xA9], ''1''), ([CHR 0x65, CHR 0xCC, CHR 0x81], ''2'')]
   \<noteq> getVerifyParams canonical_compare
     [([CHR 0x65, CHR 0xCC, CHR 0x81], ''2''), ([CHR 0xC3, CHR 0xA9], ''1'')]"
proof -
  have c: "canonical_compare [CHR 0xC3, CHR 0xA9] [CHR 0x65, CHR 0xCC, CHR 0x81] = 0"
    "canonical_compare [CHR 0x65, CHR 0xCC, CHR 0x81] [CHR 0xC3, CHR 0xA9] = 0"
    by (simp_all add: canonical_compare_def byte_compare_def)
  have s: "\<not> skipped ([CHR 0xC3, CHR 0xA9], ''1'')" "\<not> skipped ([CHR 0x65, CHR 0xCC, CHR 0x81], ''2'')"
    by (simp_all add: skipped_def)
  from getVerifyParams_insertion_order [where lc = canonical_compare, OF c s] c(1)
  show ?thesis by simp
qed

section \<open>Rounding to double\<close>

lemma pow2_powi: "pow2 k = 2 powi k"
proof (cases "0 \<le> k")
  case True
  then show ?thesis by (simp add: pow2_def power_int_def)
next
  case False
  have "inverse (2::rat) ^ nat (- k) = 1 / 2 ^ nat (- k)"
    by (simp only: inverse_eq_divide power_one_over)
  with False show ?thesis by (simp add: pow2_def power_int_def)
qed

lemma pow2_pos: "0 < pow2 k"
  by (simp add: pow2_powi)

lemma pow2_add: "pow2 (a + b) = pow2 a * pow2 b"
  by (simp add: pow2_powi power_int_add)

lemma pow2_mono: "a \<le> b \<Longrightarrow> pow2 a \<le> pow2 b"
  by (simp add: pow2_powi power_int_increasing)

lemma pow2_nonneg_exponent: "0 \<le> k \<Longrightarrow> pow2 k = of_int (2 ^ nat k)"
  by (simp add: pow2_def)

lemma round_half_even_le: "x \<le> of_int N \<Longrightarrow> round_half_even x \<le> N"
proof -
  assume x: "x \<le> of_int N"
  have f: "\<lfloor>x\<rfloor> \<le> N" using x by (simp add: floor_le_iff)
  show ?thesis
  proof (cases "x = of_int \<lfloor>x\<rfloor>")
    case True
    then have "x - of_int \<lfloor>x\<rfloor> = 0" by simp
    then have "round_half_even x = \<lfloor>x\<rfloor>"
      by (simp add: round_half_even_def Let_def)
    with f show ?thesis by simp
  next
    case False
    then have "of_int \<lfloor>x\<rfloor> < x" by (metis of_int_floor_le order_less_le)
    then have "(of_int \<lfloor>x\<rfloor> :: rat) < of_int N" using x by linarith
    then have "\<lfloor>x\<rfloor> + 1 \<le> N" by simp
    moreover have "round_half_even x \<le> \<lfloor>x\<rfloor> + 1"
      by (simp add: round_half_even_def Let_def)
    ultimately show ?thesis by linarith
  qed
qed

lemma round_half_even_ge: "of_int N \<le> x \<Longrightarrow> N \<le> round_half_even x"
proof -
  assume "of_int N \<le> x"
  then have "N \<le> \<lfloor>x\<rfloor>" by (simp add: le_floor_iff)
  moreover have "\<lfloor>x\<rfloor> \<le> round_half_even x"
    by (simp add: round_half_even_def Let_def)
  ultimately show ?thesis by linarith
qed

lemma ilog2_below_one: "x < 1 \<Longrightarrow> ilog2 x \<le> 0"
  by (simp add: ilog2_def bitlen_nonneg)

lemma ilog2_lower: "0 < x \<Longrightarrow> pow2 (ilog2 x) \<le> x"
proof (cases "1 \<le> x")
  case True
  assume "0 < x"
  from True have p: "0 < \<lfloor>x\<rfloor>" by (simp add: floor_less_iff less_floor_iff) linarith?
  then have b: "1 \<le> bitlen \<lfloor>x\<rfloor>"
    using bitlen_eq_zero_iff [of "\<lfloor>x\<rfloor>"] bitlen_nonneg [of "\<lfloor>x\<rfloor>"] by linarith
  have "(2::int) ^ nat (bitlen \<lfloor>x\<rfloor> - 1) \<le> \<lfloor>x\<rfloor>"
    using bitlen_bounds [OF p] by simp
  then have "(of_int (2 ^ nat (bitlen \<lfloor>x\<rfloor> - 1)) :: rat) \<le> of_int \<lfloor>x\<rfloor>"
    by (simp only: of_int_le_iff)
  also have "\<dots> \<le> x" by simp
  finally show ?thesis
    using True b by (simp add: ilog2_def pow2_nonneg_exponent)
next
  case False
  assume x: "0 < x"
  let ?n = "\<lceil>1 / x\<rceil> - 1"
  have one: "1 < 1 / x" using False x by simp
  then have n: "0 < ?n" by (simp add: less_ceiling_iff) linarith?
  have "?n < 2 ^ nat (bitlen ?n)"
    using bitlen_bounds [OF n] by simp
  then have c: "\<lceil>1 / x\<rceil> \<le> 2 ^ nat (bitlen ?n)" by linarith
  have "1 / x \<le> of_int \<lceil>1 / x\<rceil>" by (rule le_of_int_ceiling)
  also have "\<dots> \<le> of_int (2 ^ nat (bitlen ?n))"
    using c by (simp only: of_int_le_iff)
  also have "\<dots> = 2 ^ nat (bitlen ?n)" by simp
  finally have "1 / x \<le> 2 ^ nat (bitlen ?n)" .
  then have "1 \<le> 2 ^ nat (bitlen ?n) * x"
    using x by (simp add: field_simps)
  then have "1 / 2 ^ nat (bitlen ?n) \<le> x"
    by (simp add: field_simps)
  moreover have "pow2 (ilog2 x) = 1 / 2 ^ nat (bitlen ?n)"
    using False bitlen_nonneg [of ?n] by (simp add: ilog2_def pow2_def)
  ultimately show ?thesis by simp
qed

lemma ilog2_small: "0 < x \<Longrightarrow> x < 1 / 512 \<Longrightarrow> ilog2 x \<le> - 10"
proof -
  assume x: "0 < x" "x < 1 / 512"
  then have "512 < 1 / x" by (simp add: field_simps)
  then have "513 \<le> \<lceil>1 / x\<rceil>" by (simp add: le_ceiling_iff less_ceiling_iff) linarith?
  then have "2 ^ (nat 10 - 1) \<le> \<lceil>1 / x\<rceil> - 1" by simp
  then have "10 \<le> bitlen (\<lceil>1 / x\<rceil> - 1)"
    by (simp add: bitlen_ge_iff_power)
  with x show ?thesis by (simp add: ilog2_def)
qed

lemma ilog2_large: "1 / 1024 \<le> x \<Longrightarrow> - 10 \<le> ilog2 x"
proof (cases "1 \<le> x")
  case True
  then show ?thesis
    using bitlen_nonneg [of "\<lfloor>x\<rfloor>"] by (simp add: ilog2_def)
next
  case False
  assume x: "1 / 1024 \<le> x"
  then have "1 / x \<le> 1024" by (simp add: field_simps)
  then have "\<lceil>1 / x\<rceil> \<le> 1024" by (simp add: ceiling_le_iff)
  then have "\<lceil>1 / x\<rceil> - 1 < 2 ^ nat 10" by simp
  then have "bitlen (\<lceil>1 / x\<rceil> - 1) \<le> 10"
    by (simp add: bitlen_le_iff_power)
  with False show ?thesis by (simp add: ilog2_def)
qed

lemma rounded_nonneg: "0 \<le> a \<Longrightarrow> 0 \<le> of_int (round_half_even (a / pow2 q)) * pow2 q"
proof -
  assume "0 \<le> a"
  then have "of_int 0 \<le> a / pow2 q"
    using pow2_pos [of q] by simp
  then have "0 \<le> round_half_even (a / pow2 q)"
    by (rule round_half_even_ge)
  then show ?thesis
    using pow2_pos [of q] by simp
qed

lemma to_double_positive:
  "0 < x \<Longrightarrow>
   to_double x =
     (if 1024 \<le> ilog2 (of_int (round_half_even (x / pow2 (max (ilog2 x - 52) (- 1074))))
                          * pow2 (max (ilog2 x - 52) (- 1074)))
      then Infinity False
      else Fin (of_int (round_half_even (x / pow2 (max (ilog2 x - 52) (- 1074))))
                * pow2 (max (ilog2 x - 52) (- 1074))))"
  by (simp add: to_double_def Let_def)

lemma Math_abs_to_double: "Math_abs (to_double x) = to_double \<bar>x\<bar>"
proof -
  consider "x = 0" | "0 < x" | "x < 0" by linarith
  then show ?thesis
  proof cases
    case 1
    then show ?thesis by (simp add: to_double_def)
  next
    case 2
    with rounded_nonneg [of x "max (ilog2 x - 52) (- 1074)"] show ?thesis
      by (simp add: to_double_positive)
  next
    case 3
    then have p: "0 < \<bar>x\<bar>" by simp
    from 3 rounded_nonneg [of "\<bar>x\<bar>" "max (ilog2 \<bar>x\<bar> - 52) (- 1074)"]
    show ?thesis
      unfolding to_double_positive [OF p]
      by (simp add: to_double_def Let_def)
  qed
qed

text \<open>The double nearest to \<open>0.001\<close> is \<open>4611686018427388 \<sqdot> 2\<^sup>-\<^sup>6\<^sup>2\<close>; the next double above it is
  \<open>4611686018427389 \<sqdot> 2\<^sup>-\<^sup>6\<^sup>2\<close>.\<close>

lemma to_double_at_most_tolerance:
  assumes "0 \<le> x" "x \<le> 1152921504606847 / 1152921504606846976"
  shows "\<exists>y. to_double x = Fin y \<and> y \<le> 1152921504606847 / 1152921504606846976"
proof (cases "x = 0")
  case True
  then show ?thesis by (simp add: to_double_def)
next
  case False
  with assms have x: "0 < x" by simp
  define q where "q = max (ilog2 x - 52) (- 1074)"
  define n where "n = round_half_even (x / pow2 q)"
  define y where "y = of_int n * pow2 q"
  have "x < 1 / 512" using assms(2) by simp
  with x have "ilog2 x \<le> - 10" by (rule ilog2_small)
  then have q: "q \<le> - 62" by (simp add: q_def)
  have "pow2 (- 62) = pow2 (q + (- 62 - q))" by simp
  also have "\<dots> = pow2 q * pow2 (- 62 - q)" by (rule pow2_add)
  also have "pow2 (- 62 - q) = of_int (2 ^ nat (- 62 - q))"
    using q by (intro pow2_nonneg_exponent) simp
  finally have split: "pow2 (- 62) = pow2 q * of_int (2 ^ nat (- 62 - q))" .
  have c: "(1152921504606847 / 1152921504606846976 :: rat) = 4611686018427388 * pow2 (- 62)"
    by (simp add: pow2_def)
  have cq: "(1152921504606847 / 1152921504606846976 :: rat)
      = of_int (4611686018427388 * 2 ^ nat (- 62 - q)) * pow2 q"
    unfolding c split by simp
  have "x / pow2 q \<le> of_int (4611686018427388 * 2 ^ nat (- 62 - q)) * pow2 q / pow2 q"
    using assms(2) pow2_pos [of q] unfolding cq by (intro divide_right_mono) simp_all
  then have "x / pow2 q \<le> of_int (4611686018427388 * 2 ^ nat (- 62 - q))"
    using pow2_pos [of q] by simp
  then have "n \<le> 4611686018427388 * 2 ^ nat (- 62 - q)"
    unfolding n_def by (rule round_half_even_le)
  then have "(of_int n :: rat) \<le> of_int (4611686018427388 * 2 ^ nat (- 62 - q))"
    by (simp only: of_int_le_iff)
  then have "y \<le> of_int (4611686018427388 * 2 ^ nat (- 62 - q)) * pow2 q"
    unfolding y_def using pow2_pos [of q] by (intro mult_right_mono) simp_all
  then have y: "y \<le> 1152921504606847 / 1152921504606846976"
    unfolding cq .
  then have "y < 1" by simp
  then have "ilog2 y \<le> 0" by (rule ilog2_below_one)
  then have "to_double x = Fin y"
    using x by (simp add: to_double_positive y_def n_def q_def)
  with y show ?thesis by simp
qed

lemma to_double_beyond_tolerance:
  assumes "4611686018427389 / 4611686018427387904 \<le> x"
  shows "to_double x = Infinity False \<or>
         (\<exists>y. to_double x = Fin y \<and> 4611686018427389 / 4611686018427387904 \<le> y)"
proof -
  from assms have x: "0 < x" by simp
  define q where "q = max (ilog2 x - 52) (- 1074)"
  define n where "n = round_half_even (x / pow2 q)"
  define y where "y = of_int n * pow2 q"
  have "1 / 1024 \<le> x" using assms by simp
  then have e: "- 10 \<le> ilog2 x" by (rule ilog2_large)
  then have q: "q = ilog2 x - 52" by (simp add: q_def)
  have "4611686018427389 / 4611686018427387904 \<le> y"
  proof (cases "ilog2 x = - 10")
    case True
    then have q62: "q = - 62" using q by simp
    have "of_int 4611686018427389 \<le> x / pow2 q"
      using assms unfolding q62 by (simp add: pow2_def field_simps)
    then have "4611686018427389 \<le> n"
      unfolding n_def by (rule round_half_even_ge)
    then have "(of_int 4611686018427389 :: rat) \<le> of_int n"
      by (simp only: of_int_le_iff)
    then have "of_int 4611686018427389 * pow2 q \<le> y"
      unfolding y_def using pow2_pos [of q] by (intro mult_right_mono) simp_all
    then show ?thesis unfolding q62 by (simp add: pow2_def)
  next
    case False
    with e have e9: "- 9 \<le> ilog2 x" by simp
    have "pow2 (ilog2 x) = pow2 (q + 52)" using q by simp
    also have "\<dots> = pow2 q * pow2 52" by (rule pow2_add)
    finally have split: "pow2 (ilog2 x) = pow2 q * of_int (2 ^ 52)"
      by (simp add: pow2_def)
    have "pow2 q * of_int (2 ^ 52) \<le> x"
      using ilog2_lower [OF x] unfolding split .
    then have "of_int (2 ^ 52) \<le> x / pow2 q"
      using pow2_pos [of q] by (simp add: field_simps)
    then have "2 ^ 52 \<le> n"
      unfolding n_def by (rule round_half_even_ge)
    then have "(of_int (2 ^ 52) :: rat) \<le> of_int n"
      by (simp only: of_int_le_iff)
    then have "of_int (2 ^ 52) * pow2 q \<le> y"
      unfolding y_def using pow2_pos [of q] by (intro mult_right_mono) simp_all
    then have "pow2 (ilog2 x) \<le> y"
      unfolding split by (simp add: mult.commute)
    moreover have "pow2 (- 9) \<le> pow2 (ilog2 x)"
      using e9 by (rule pow2_mono)
    moreover have "(4611686018427389 / 4611686018427387904 :: rat) \<le> pow2 (- 9)"
      by (simp add: pow2_def)
    ultimately show ?thesis by linarith
  qed
  moreover have "to_double x = (if 1024 \<le> ilog2 y then Infinity False else Fin y)"
    using x by (simp add: to_double_positive y_def n_def q_def)
  ultimately show ?thesis by simp
qed

section \<open>C4: the amount check\<close>

lemma money_mismatch_finite:
  assumes "parseFloat received = Fin r" "to_double (of_int stored / 100) = Fin e"
  shows "money_mismatch received stored =
         num_gt (to_double \<bar>r - e\<bar>) (Fin (1152921504606847 / 1152921504606846976))"
proof -
  have "Math_abs (num_sub (Fin r) (Fin e)) = to_double \<bar>r - e\<bar>"
    by (simp add: Math_abs_to_double)
  then show ?thesis
    unfolding money_mismatch_def Let_def assms double_0_001 by (simp add: isNaN_def)
qed

lemma within_tolerance:
  assumes "parseFloat received = Fin r" "to_double (of_int stored / 100) = Fin e"
    and "\<bar>r - e\<bar> \<le> 1 / 1000"
  shows "\<not> money_mismatch received stored"
proof -
  have "\<bar>r - e\<bar> \<le> 1152921504606847 / 1152921504606846976"
    using assms(3) by simp
  from to_double_at_most_tolerance [OF _ this]
  obtain y where "to_double \<bar>r - e\<bar> = Fin y" "y \<le> 1152921504606847 / 1152921504606846976"
    by auto
  then show ?thesis
    unfolding money_mismatch_finite [OF assms(1,2)] by simp
qed

lemma beyond_tolerance:
  assumes "parseFloat received = Fin r" "to_double (of_int stored / 100) = Fin e"
    and "1 / 1000 + 1 / 10 ^ 18 \<le> \<bar>r - e\<bar>"
  shows "money_mismatch received stored"
proof -
  have "4611686018427389 / 4611686018427387904 \<le> \<bar>r - e\<bar>"
    using assms(3) by simp
  from to_double_beyond_tolerance [OF this]
  show ?thesis
    unfolding money_mismatch_finite [OF assms(1,2)] by auto
qed

lemma not_a_number: "parseFloat received = NaN \<Longrightarrow> money_mismatch received stored"
  by (simp add: money_mismatch_def isNaN_def)

lemma decimal_99_001: "decimal_prefix ''99.001'' = Some (99001 / 1000)"
  by (simp add: decimal_prefix_def is_digit_def digits_val_def digit_val_def
      exponent_part_def pow10_def)

lemma double_99_001: "to_double (99001 / 1000) = Fin (3483288021166457 / 35184372088832)"
  by code_simp

lemma double_99: "to_double (of_int 9900 / 100) = Fin 99"
  by code_simp

lemma parseFloat_99_001: "parseFloat ''99.001'' = Fin (3483288021166457 / 35184372088832)"
  by (simp add: parseFloat_def trim_start_def white_space_def unsigned_literal_def
      decimal_99_001 double_99_001)

lemma dear_verifyParams: "verifyParams dear_notify = verifyParams dear_fields"
  by (simp add: verifyParams_def notify_fields_def field_def dear_notify_def dear_fields_def)

lemma dear_sign:
  "field dear_notify ''sign'' = sign_of sample_host (verifyParams dear_notify) ''k3y''"
  unfolding dear_verifyParams by (simp add: field_def dear_notify_def dear_fields_def)

lemma dear_field_values:
  "field dear_notify ''trade_status'' = ''TRADE_SUCCESS''"
  "field dear_notify ''out_trade_no'' = ''20250401000000123''"
  "field dear_notify ''money'' = ''99.001''"
  by (simp_all add: field_def dear_notify_def dear_fields_def)

lemma dear_lookup:
  "single (filter (\<lambda>r. out_trade_no r = field dear_notify ''out_trade_no'') [dear_order])
     = Some dear_order"
  "status dear_order \<noteq> ''paid''" "money dear_order = 9900"
  by (simp_all add: dear_field_values single_def dear_order_def pending_order_def)

text \<open>
  Claim C4 fails on the code at the edge of the tolerance, because the handler compares
  doubles. The stored amount is 99.00 and the notification says 99.001: the amounts
  differ by 0.001, which the claim accepts, but the double nearest to 99.001 lies
  \<open>4.77\<sqdot>10\<^sup>-\<^sup>1\<^sup>5\<close> above it, the difference of the doubles exceeds the double nearest to
  0.001, and the handler rejects.
\<close>

theorem amount_tolerance_counterexample:
  "decimal_prefix ''99.001'' = Some (99001 / 1000)
   \<and> \<bar>99001 / 1000 - of_int 9900 / 100\<bar> \<le> (1 / 1000 :: rat)
   \<and> money_mismatch ''99.001'' 9900
   \<and> GET sample_host sample_config sample_world [dear_order] dear_notify
       = (MoneyMismatch, [dear_order])"
proof -
  have m: "money_mismatch ''99.001'' 9900"
    by (rule beyond_tolerance [OF parseFloat_99_001 double_99]) simp
  have "webhook_checks sample_host sample_config sample_world [dear_order] dear_notify
      = Inl MoneyMismatch"
    using dear_lookup m
    by (simp add: webhook_checks_def sample_key dear_sign dear_field_values sample_no_errors)
  then have "GET sample_host sample_config sample_world [dear_order] dear_notify
       = (MoneyMismatch, [dear_order])"
    by (simp add: GET_def GET_at_def)
  with m decimal_99_001 show ?thesis by simp
qed

text \<open>
  Claim C4, amended. The tolerance applies to the doubles: let \<open>r\<close> be the number that
  \<^verbatim>\<open>parseFloat\<close> reads from the notification's amount and \<open>e\<close> the double of the stored
  amount. When \<open>\<bar>r - e\<bar> \<le> 0.001\<close> the amount check passes, and when
  \<open>\<bar>r - e\<bar> \<ge> 0.001 + 10\<^sup>-\<^sup>1\<^sup>8\<close> it fails; in between the rounding of \<open>r - e\<close> decides. It
  also fails when the amount does not parse to a number. For a verified success
  notification whose order is found and not yet paid, a failed check ends the run with
  \<open>MoneyMismatch\<close>, status 400, and the ledger untouched, and a passed check lets the run
  proceed with the row. The comparison is this absolute tolerance, not equality.
\<close>

theorem amount_tolerance:
  "(parseFloat received = Fin r \<and> to_double (of_int stored / 100) = Fin e \<and>
    \<bar>r - e\<bar> \<le> 1 / 1000 \<longrightarrow> \<not> money_mismatch received stored)
   \<and> (parseFloat received = Fin r \<and> to_double (of_int stored / 100) = Fin e \<and>
       1 / 1000 + 1 / 10 ^ 18 \<le> \<bar>r - e\<bar> \<longrightarrow> money_mismatch received stored)
   \<and> (parseFloat received = NaN \<longrightarrow> money_mismatch received stored)
   \<and> (ZPAY_KEY cfg = Some key \<and> key \<noteq> [] \<and>
       field q ''sign'' = sign_of h (verifyParams q) key \<and>
       field q ''trade_status'' = ''TRADE_SUCCESS'' \<and> \<not> select_error w \<and>
       single (filter (\<lambda>r. out_trade_no r = field q ''out_trade_no'') dbr) = Some t \<and>
       status t \<noteq> ''paid'' \<longrightarrow>
        (money_mismatch (field q ''money'') (money t) \<longrightarrow>
           GET_at h cfg w dbr dbs dbw q = (MoneyMismatch, dbw) \<and>
           status_code MoneyMismatch = 400) \<and>
        (\<not> money_mismatch (field q ''money'') (money t) \<longrightarrow>
           webhook_checks h cfg w dbr q = Inr t))"
proof (intro conjI impI)
  assume "parseFloat received = Fin r \<and> to_double (of_int stored / 100) = Fin e \<and>
    \<bar>r - e\<bar> \<le> 1 / 1000"
  then show "\<not> money_mismatch received stored"
    using within_tolerance by blast
next
  assume "parseFloat received = Fin r \<and> to_double (of_int stored / 100) = Fin e \<and>
       1 / 1000 + 1 / 10 ^ 18 \<le> \<bar>r - e\<bar>"
  then show "money_mismatch received stored"
    using beyond_tolerance by blast
next
  assume "parseFloat received = NaN"
  then show "money_mismatch received stored" by (rule not_a_number)
next
  assume a: "ZPAY_KEY cfg = Some key \<and> key \<noteq> [] \<and>
       field q ''sign'' = sign_of h (verifyParams q) key \<and>
       field q ''trade_status'' = ''TRADE_SUCCESS'' \<and> \<not> select_error w \<and>
       single (filter (\<lambda>r. out_trade_no r = field q ''out_trade_no'') dbr) = Some t \<and>
       status t \<noteq> ''paid''"
  {
    assume "money_mismatch (field q ''money'') (money t)"
    with a show "GET_at h cfg w dbr dbs dbw q = (MoneyMismatch, dbw)"
      by (simp add: GET_at_def webhook_checks_def)
    show "status_code MoneyMismatch = 400" by simp
  next
    assume "\<not> money_mismatch (field q ''money'') (money t)"
    with a show "webhook_checks h cfg w dbr q = Inr t"
      by (simp add: webhook_checks_def)
  }
qed

theorem amount_tolerance_witness:
  "parseFloat ''9.90'' = Fin (5573204538870989 / 562949953421312)
   \<and> to_double (of_int 990 / 100) = Fin (5573204538870989 / 562949953421312)
   \<and> \<not> money_mismatch ''9.90'' 990
   \<and> parseFloat ''99.001'' = Fin (3483288021166457 / 35184372088832)
   \<and> to_double (of_int 9900 / 100) = Fin 99
   \<and> (1 / 1000 + 1 / 10 ^ 18 :: rat) \<le> \<bar>3483288021166457 / 35184372088832 - 99\<bar>
   \<and> money_mismatch ''99.001'' 9900"
proof -
  have e: "to_double (of_int 990 / 100) = Fin (5573204538870989 / 562949953421312)"
    using double_9_90 by simp
  have near: "\<bar>5573204538870989 / 562949953421312 - 5573204538870989 / 562949953421312\<bar>
      \<le> (1 / 1000 :: rat)"
    by simp
  have far: "(1 / 1000 + 1 / 10 ^ 18 :: rat) \<le> \<bar>3483288021166457 / 35184372088832 - 99\<bar>"
    by simp
  have a: "\<not> money_mismatch ''9.90'' 990"
    using amount_tolerance [THEN conjunct1, rule_format] parseFloat_9_90 e near by blast
  have b: "money_mismatch ''99.001'' 9900"
    using amount_tolerance [THEN conjunct2, THEN conjunct1, rule_format]
      parseFloat_99_001 double_99 far by blast
  from parseFloat_9_90 e a parseFloat_99_001 double_99 far b show ?thesis
    by (intro conjI)
qed

end
